theory Spec2Isabelle
  imports Complex_Main
begin

section \<open>Numeric model\<close>

text \<open>
  The firmware computes with single-precision \<open>float\<close>. Apart from \<open>DecayEnvelope\<close>, the
  embedding computes with exact reals: every \<open>float\<close> is a \<open>real\<close>, a literal such as
  \<open>0.001f\<close> is the decimal it is written as, and \<open>std::exp\<close>, \<open>std::pow\<close> on a positive
  base, \<open>std::fmin\<close>, \<open>std::fmax\<close> are \<open>exp\<close>, \<open>powr\<close>, \<open>min\<close>, \<open>max\<close>. Rounding,
  infinities and NaN are outside that part of the model. A quotient is written with HOL's
  total division, as the source writes it; every theorem that depends on a quotient keeps
  its divisor away from zero by a hypothesis or evaluates it at a concrete input.

  What \<open>DecayEnvelope\<close> returns over a long run depends on the rounding of its one
  product, so its arithmetic is rounded to binary32 by \<open>f32\<close> after every operation:
  to the nearest number with a significand of 24 bits, ties to the even significand, with
  gradual underflow below \<open>2 powr -126\<close>. Overflow to infinity is not modelled.
\<close>

definition round_even :: "real \<Rightarrow> int" where
  \<comment> \<open>the nearest integer, a tie going to the even one\<close>
  "round_even t =
     (let f = \<lfloor>t\<rfloor>
      in if t - of_int f < 1 / 2 then f
         else if 1 / 2 < t - of_int f then f + 1
         else if even f then f else f + 1)"

definition f32_exponent :: "real \<Rightarrow> int" where
  \<comment> \<open>the binary exponent of a binary32 number near \<open>x\<close>, not below that of the
     subnormal numbers\<close>
  "f32_exponent x = max \<lfloor>log 2 \<bar>x\<bar>\<rfloor> (- 126)"

definition f32 :: "real \<Rightarrow> real" where
  \<comment> \<open>rounding to binary32: the nearest multiple of the unit in the last place\<close>
  "f32 x =
     (let u = 2 powr (of_int (f32_exponent x - 23))
      in of_int (round_even (x / u)) * u)"

definition truncf :: "real \<Rightarrow> int" where
  \<comment> \<open>the conversion \<open>(int)x\<close> to a 32-bit \<open>int\<close>: rounding toward zero; where the
     rounded value does not fit, C++ leaves the result undefined and the model takes
     \<open>INT_MIN\<close>, the "integer indefinite" value of the conversion instruction\<close>
  "truncf x =
     (let t = (if 0 \<le> x then \<lfloor>x\<rfloor> else \<lceil>x\<rceil>)
      in if - 2147483648 \<le> t \<and> t \<le> 2147483647 then t else - 2147483648)"

definition floorf :: "real \<Rightarrow> real" where
  "floorf x = of_int \<lfloor>x\<rfloor>"

definition fmod :: "real \<Rightarrow> real \<Rightarrow> real" where
  \<comment> \<open>C's \<open>fmod\<close>: the remainder of the quotient truncated toward zero\<close>
  "fmod x y = x - y * of_int (if 0 \<le> x / y then \<lfloor>x / y\<rfloor> else \<lceil>x / y\<rceil>)"

section \<open>AnalogEnvelope\<close>

datatype State = IDLE | ATTACK | DECAY | RELEASE

record AnalogEnvelope =
  aenv_state :: State
  aenv_isNoteOn :: bool
  aenv_sampleRate :: real
  aenv_decayTime :: real
  aenv_releaseTime :: real
  aenv_attackTime :: real
  aenv_decayCoeff :: real
  aenv_releaseCoeff :: real
  aenv_attackCoeff :: real
  aenv_currentLevel :: real

definition AnalogEnvelope_init :: AnalogEnvelope where
  \<comment> \<open>the default member initialisers of the class\<close>
  "AnalogEnvelope_init =
     \<lparr>aenv_state = IDLE, aenv_isNoteOn = False, aenv_sampleRate = 44100,
      aenv_decayTime = 1000, aenv_releaseTime = 10, aenv_attackTime = 3,
      aenv_decayCoeff = 0.99, aenv_releaseCoeff = 0.9, aenv_attackCoeff = 0.1,
      aenv_currentLevel = 0\<rparr>"

definition AnalogEnvelope_calculateCoeffs :: "AnalogEnvelope \<Rightarrow> AnalogEnvelope" where
  "AnalogEnvelope_calculateCoeffs s =
     (let attackSamples0 = 0.001 * aenv_attackTime s * aenv_sampleRate s;
          attackSamples = (if attackSamples0 < 1 then 1 else attackSamples0)
      in s\<lparr>aenv_decayCoeff := exp (- 1 / (0.001 * aenv_decayTime s * aenv_sampleRate s)),
            aenv_releaseCoeff := exp (- 1 / (0.001 * aenv_releaseTime s * aenv_sampleRate s)),
            aenv_attackCoeff := 1 / attackSamples\<rparr>)"

definition AnalogEnvelope_setSampleRate :: "real \<Rightarrow> AnalogEnvelope \<Rightarrow> AnalogEnvelope" where
  "AnalogEnvelope_setSampleRate sr s = AnalogEnvelope_calculateCoeffs (s\<lparr>aenv_sampleRate := sr\<rparr>)"

definition AnalogEnvelope_setDecay :: "real \<Rightarrow> AnalogEnvelope \<Rightarrow> AnalogEnvelope" where
  "AnalogEnvelope_setDecay ms s = AnalogEnvelope_calculateCoeffs (s\<lparr>aenv_decayTime := ms\<rparr>)"

definition AnalogEnvelope_setRelease :: "real \<Rightarrow> AnalogEnvelope \<Rightarrow> AnalogEnvelope" where
  "AnalogEnvelope_setRelease ms s = AnalogEnvelope_calculateCoeffs (s\<lparr>aenv_releaseTime := ms\<rparr>)"

definition AnalogEnvelope_setAttack :: "real \<Rightarrow> AnalogEnvelope \<Rightarrow> AnalogEnvelope" where
  "AnalogEnvelope_setAttack ms s = AnalogEnvelope_calculateCoeffs (s\<lparr>aenv_attackTime := ms\<rparr>)"

definition AnalogEnvelope_noteOn :: "AnalogEnvelope \<Rightarrow> AnalogEnvelope" where
  "AnalogEnvelope_noteOn s = s\<lparr>aenv_isNoteOn := True, aenv_state := ATTACK, aenv_currentLevel := 0\<rparr>"

definition AnalogEnvelope_noteOff :: "AnalogEnvelope \<Rightarrow> AnalogEnvelope" where
  "AnalogEnvelope_noteOff s = s\<lparr>aenv_isNoteOn := False, aenv_state := RELEASE\<rparr>"

definition AnalogEnvelope_isActive :: "AnalogEnvelope \<Rightarrow> bool" where
  "AnalogEnvelope_isActive s = aenv_isNoteOn s"

text \<open>
  \<open>process\<close> advances the envelope by one sample. The model returns the updated object;
  the value the C++ function returns is the \<open>currentLevel\<close> of that object.
\<close>

definition AnalogEnvelope_step :: "AnalogEnvelope \<Rightarrow> AnalogEnvelope" where
  "AnalogEnvelope_step s =
     (if aenv_state s = ATTACK then
        (let l = aenv_currentLevel s + aenv_attackCoeff s
         in if l \<ge> 1 then s\<lparr>aenv_currentLevel := 1, aenv_state := DECAY\<rparr>
            else s\<lparr>aenv_currentLevel := l\<rparr>)
      else if aenv_state s = DECAY then
        (let l = aenv_currentLevel s * aenv_decayCoeff s
         in if l < 0.0001 then s\<lparr>aenv_currentLevel := 0, aenv_state := IDLE\<rparr>
            else s\<lparr>aenv_currentLevel := l\<rparr>)
      else if aenv_state s = RELEASE then
        (let l = aenv_currentLevel s * aenv_releaseCoeff s
         in if l < 0.0001 then s\<lparr>aenv_currentLevel := 0, aenv_state := IDLE\<rparr>
            else s\<lparr>aenv_currentLevel := l\<rparr>)
      else s)"

definition AnalogEnvelope_process :: "AnalogEnvelope \<Rightarrow> real \<times> AnalogEnvelope" where
  "AnalogEnvelope_process s = (aenv_currentLevel (AnalogEnvelope_step s), AnalogEnvelope_step s)"

primrec AnalogEnvelope_process_n :: "nat \<Rightarrow> AnalogEnvelope \<Rightarrow> AnalogEnvelope" where
  \<comment> \<open>the object after \<open>n\<close> consecutive calls of \<open>process\<close>\<close>
  "AnalogEnvelope_process_n 0 s = s"
| "AnalogEnvelope_process_n (Suc n) s = snd (AnalogEnvelope_process (AnalogEnvelope_process_n n s))"

text \<open>
  The public interface as a datatype of calls, and the object after a sequence of calls
  on a default-constructed envelope.
\<close>

datatype AnalogEnvelope_call =
  AE_setSampleRate real | AE_setDecay real | AE_setRelease real | AE_setAttack real
  | AE_noteOn | AE_noteOff | AE_process

fun AnalogEnvelope_apply :: "AnalogEnvelope_call \<Rightarrow> AnalogEnvelope \<Rightarrow> AnalogEnvelope" where
  "AnalogEnvelope_apply (AE_setSampleRate sr) s = AnalogEnvelope_setSampleRate sr s"
| "AnalogEnvelope_apply (AE_setDecay ms) s = AnalogEnvelope_setDecay ms s"
| "AnalogEnvelope_apply (AE_setRelease ms) s = AnalogEnvelope_setRelease ms s"
| "AnalogEnvelope_apply (AE_setAttack ms) s = AnalogEnvelope_setAttack ms s"
| "AnalogEnvelope_apply AE_noteOn s = AnalogEnvelope_noteOn s"
| "AnalogEnvelope_apply AE_noteOff s = AnalogEnvelope_noteOff s"
| "AnalogEnvelope_apply AE_process s = snd (AnalogEnvelope_process s)"

fun AnalogEnvelope_run :: "AnalogEnvelope_call list \<Rightarrow> AnalogEnvelope \<Rightarrow> AnalogEnvelope" where
  "AnalogEnvelope_run [] s = s"
| "AnalogEnvelope_run (c # cs) s = AnalogEnvelope_run cs (AnalogEnvelope_apply c s)"

fun AnalogEnvelope_call_ok :: "AnalogEnvelope_call \<Rightarrow> bool" where
  \<comment> \<open>a call whose sample rate or release time, if it sets one, is positive, and whose
     decay time, a divisor, is not zero\<close>
  "AnalogEnvelope_call_ok (AE_setSampleRate sr) = (0 < sr)"
| "AnalogEnvelope_call_ok (AE_setRelease ms) = (0 < ms)"
| "AnalogEnvelope_call_ok (AE_setDecay ms) = (ms \<noteq> 0)"
| "AnalogEnvelope_call_ok _ = True"

section \<open>DecayEnvelope\<close>

record DecayEnvelope =
  denv_sampleRate :: real
  denv_decayTime :: real
  denv_coeff :: real
  denv_y :: real

definition DecayEnvelope_init :: DecayEnvelope where
  \<comment> \<open>the default member initialisers of the class\<close>
  "DecayEnvelope_init =
     \<lparr>denv_sampleRate = 44100, denv_decayTime = 200, denv_coeff = 0.99, denv_y = 0\<rparr>"

definition DecayEnvelope_calculateCoeff :: "DecayEnvelope \<Rightarrow> DecayEnvelope" where
  \<comment> \<open>a divisor rounded to zero gives \<open>-1.0f / 0.0f\<close>, minus infinity, whose \<open>exp\<close> is 0\<close>
  "DecayEnvelope_calculateCoeff s =
     (let s1 = (if denv_decayTime s < 0.1 then s\<lparr>denv_decayTime := 0.1\<rparr> else s);
          d = f32 (f32 (0.001 * denv_decayTime s1) * denv_sampleRate s1)
      in s1\<lparr>denv_coeff := (if d = 0 then 0 else f32 (exp (f32 (- 1 / d))))\<rparr>)"


definition DecayEnvelope_setDecayTime :: "real \<Rightarrow> DecayEnvelope \<Rightarrow> DecayEnvelope" where
  "DecayEnvelope_setDecayTime ms s = DecayEnvelope_calculateCoeff (s\<lparr>denv_decayTime := ms\<rparr>)"



definition DecayEnvelope_getCurrentValue :: "DecayEnvelope \<Rightarrow> real" where
  "DecayEnvelope_getCurrentValue s = denv_y s"






section \<open>Oscillator\<close>

datatype Waveform = SAW | SQUARE

record Oscillator =
  osc_sampleRate :: real
  osc_frequency :: real
  osc_phase :: real
  osc_phaseIncrement :: real
  osc_blend :: real
  osc_targetFreq :: real
  osc_glideSamples :: real
  osc_glideStep :: real
  osc_glideCounter :: int
  osc_subBlend :: real
  osc_subPhase :: real
  osc_subPhaseIncrement :: real
  osc_waveform :: Waveform
  osc_jc303Mode :: bool
  osc_pulseWidth :: real

definition Oscillator_init :: Oscillator where
  \<comment> \<open>the default member initialisers of the class\<close>
  "Oscillator_init =
     \<lparr>osc_sampleRate = 44100, osc_frequency = 440, osc_phase = 0, osc_phaseIncrement = 0.01,
      osc_blend = 0, osc_targetFreq = 440, osc_glideSamples = 0, osc_glideStep = 0,
      osc_glideCounter = 0, osc_subBlend = 0, osc_subPhase = 0, osc_subPhaseIncrement = 0.005,
      osc_waveform = SAW, osc_jc303Mode = True, osc_pulseWidth = 0.5\<rparr>"

definition Oscillator_setSampleRate :: "real \<Rightarrow> Oscillator \<Rightarrow> Oscillator" where
  "Oscillator_setSampleRate rate s = s\<lparr>osc_sampleRate := rate\<rparr>"

definition Oscillator_setFrequency :: "real \<Rightarrow> Oscillator \<Rightarrow> Oscillator" where
  "Oscillator_setFrequency f s =
     s\<lparr>osc_frequency := f,
       osc_phaseIncrement := f / osc_sampleRate s,
       osc_subPhaseIncrement := (f * 0.5) / osc_sampleRate s,
       osc_phase := 0,
       osc_subPhase := 0\<rparr>"

definition Oscillator_setWaveform :: "Waveform \<Rightarrow> Oscillator \<Rightarrow> Oscillator" where
  "Oscillator_setWaveform w s = s\<lparr>osc_waveform := w\<rparr>"

definition Oscillator_setBlend :: "real \<Rightarrow> Oscillator \<Rightarrow> Oscillator" where
  "Oscillator_setBlend b s = s\<lparr>osc_blend := max 0 (min 1 b)\<rparr>"

definition Oscillator_setMode :: "bool \<Rightarrow> Oscillator \<Rightarrow> Oscillator" where
  "Oscillator_setMode jc303 s =
     s\<lparr>osc_jc303Mode := jc303, osc_pulseWidth := (if jc303 then 0.53 else 0.5)\<rparr>"

definition Oscillator_glideTo :: "real \<Rightarrow> real \<Rightarrow> Oscillator \<Rightarrow> Oscillator" where
  "Oscillator_glideTo newFreq glideTimeMs s =
     (let gs0 = (glideTimeMs / 1000) * osc_sampleRate s;
          gs = (if gs0 < 1 then 1 else gs0)
      in s\<lparr>osc_targetFreq := newFreq,
            osc_glideSamples := gs,
            osc_glideStep := (newFreq / osc_frequency s) powr (1 / gs),
            osc_glideCounter := truncf gs\<rparr>)"

definition Oscillator_tick :: "Oscillator \<Rightarrow> Oscillator" where
  "Oscillator_tick s =
     (if osc_glideCounter s > 0 then
        (let f = osc_frequency s * osc_glideStep s
         in s\<lparr>osc_frequency := f,
               osc_phaseIncrement := f / osc_sampleRate s,
               osc_subPhaseIncrement := (f * 0.5) / osc_sampleRate s,
               osc_glideCounter := osc_glideCounter s - 1\<rparr>)
      else s)"

definition Oscillator_setSubBlend :: "real \<Rightarrow> Oscillator \<Rightarrow> Oscillator" where
  "Oscillator_setSubBlend b s = s\<lparr>osc_subBlend := max 0 (min 1 b)\<rparr>"

definition Oscillator_resetPhase :: "Oscillator \<Rightarrow> Oscillator" where
  "Oscillator_resetPhase s = s\<lparr>osc_phase := 0, osc_subPhase := 0\<rparr>"

definition Oscillator_polyBLEP :: "Oscillator \<Rightarrow> real \<Rightarrow> real" where
  "Oscillator_polyBLEP s t =
     (if t < osc_phaseIncrement s then
        (let t1 = t / osc_phaseIncrement s in t1 + t1 - t1 * t1 - 1)
      else if t > 1 - osc_phaseIncrement s then
        (let t1 = (t - 1) / osc_phaseIncrement s in t1 * t1 + t1 + t1 + 1)
      else 0)"

text \<open>
  The body of \<open>process\<close> after its call of \<open>tick\<close>, in the source's order: the local
  variables \<open>saw\<close> and \<open>square\<close>, the returned sample, and the two phase updates.
\<close>

definition Oscillator_saw :: "Oscillator \<Rightarrow> real" where
  "Oscillator_saw s =
     (let shifted = fmod (osc_phase s + 0.5) 1
      in 2 * shifted - 1 - Oscillator_polyBLEP s shifted)"

definition Oscillator_square :: "Oscillator \<Rightarrow> real" where
  "Oscillator_square s =
     (if osc_phase s < osc_pulseWidth s then 1 else - 1)
       + Oscillator_polyBLEP s (osc_phase s)
       - Oscillator_polyBLEP s (fmod (osc_phase s + 1 - osc_pulseWidth s) 1)"

definition Oscillator_value :: "Oscillator \<Rightarrow> real" where
  "Oscillator_value s =
     (let value0 = (1 - osc_blend s) * Oscillator_square s + osc_blend s * Oscillator_saw s;
          subVal = (if osc_subPhase s < 0.5 then 1 else - 1);
          value1 = (1 - osc_subBlend s) * value0 + osc_subBlend s * subVal
      in value1 * 0.707)"

definition Oscillator_advance :: "Oscillator \<Rightarrow> Oscillator" where
  "Oscillator_advance s =
     (let sp = osc_subPhase s + osc_subPhaseIncrement s;
          sp1 = (if sp \<ge> 1 then sp - floorf sp else sp);
          ph = osc_phase s + osc_phaseIncrement s;
          ph1 = (if ph \<ge> 1 then ph - floorf ph else ph)
      in s\<lparr>osc_subPhase := sp1, osc_phase := ph1\<rparr>)"

definition Oscillator_process :: "Oscillator \<Rightarrow> real \<times> Oscillator" where
  "Oscillator_process s =
     (let s1 = Oscillator_tick s in (Oscillator_value s1, Oscillator_advance s1))"

primrec Oscillator_tick_n :: "nat \<Rightarrow> Oscillator \<Rightarrow> Oscillator" where
  \<comment> \<open>the object after \<open>n\<close> consecutive calls of \<open>tick\<close>\<close>
  "Oscillator_tick_n 0 s = s"
| "Oscillator_tick_n (Suc n) s = Oscillator_tick (Oscillator_tick_n n s)"

text \<open>
  The public interface as a datatype of calls, and the object after a sequence of calls
  on a default-constructed oscillator.
\<close>

datatype Oscillator_call =
  O_setSampleRate real | O_setFrequency real | O_setWaveform Waveform | O_setBlend real
  | O_setSubBlend real | O_glideTo real real | O_tick | O_process | O_setMode bool
  | O_resetPhase

fun Oscillator_apply :: "Oscillator_call \<Rightarrow> Oscillator \<Rightarrow> Oscillator" where
  "Oscillator_apply (O_setSampleRate r) s = Oscillator_setSampleRate r s"
| "Oscillator_apply (O_setFrequency f) s = Oscillator_setFrequency f s"
| "Oscillator_apply (O_setWaveform w) s = Oscillator_setWaveform w s"
| "Oscillator_apply (O_setBlend b) s = Oscillator_setBlend b s"
| "Oscillator_apply (O_setSubBlend b) s = Oscillator_setSubBlend b s"
| "Oscillator_apply (O_glideTo f ms) s = Oscillator_glideTo f ms s"
| "Oscillator_apply O_tick s = Oscillator_tick s"
| "Oscillator_apply O_process s = snd (Oscillator_process s)"
| "Oscillator_apply (O_setMode jc) s = Oscillator_setMode jc s"
| "Oscillator_apply O_resetPhase s = Oscillator_resetPhase s"

fun Oscillator_run :: "Oscillator_call list \<Rightarrow> Oscillator \<Rightarrow> Oscillator" where
  "Oscillator_run [] s = s"
| "Oscillator_run (c # cs) s = Oscillator_run cs (Oscillator_apply c s)"

fun Oscillator_call_ok :: "Oscillator_call \<Rightarrow> bool" where
  \<comment> \<open>a call whose sample rate or frequency, if it sets one, is positive\<close>
  "Oscillator_call_ok (O_setSampleRate r) = (0 < r)"
| "Oscillator_call_ok (O_setFrequency f) = (0 < f)"
| "Oscillator_call_ok (O_glideTo f ms) = (0 < f)"
| "Oscillator_call_ok _ = True"

section \<open>Filter303\<close>

record Filter303 =
  flt_sampleRate :: real
  flt_cutoff :: real
  flt_resonance :: real
  flt_envMod :: real
  flt_accentMod :: real
  flt_fmAmount :: real
  flt_y1 :: real
  flt_y2 :: real
  flt_y3 :: real
  flt_y4 :: real
  flt_jc_b0 :: real
  flt_jc_k :: real
  flt_jc_g :: real
  flt_hp_state :: real
  flt_hp_cutoff :: real
  flt_hp_coeff :: real

definition Filter303_new :: "real \<Rightarrow> Filter303" where
  \<comment> \<open>the constructor and the default member initialisers\<close>
  "Filter303_new sr =
     \<lparr>flt_sampleRate = sr, flt_cutoff = 1000, flt_resonance = 0, flt_envMod = 0,
      flt_accentMod = 0, flt_fmAmount = 0, flt_y1 = 0, flt_y2 = 0, flt_y3 = 0, flt_y4 = 0,
      flt_jc_b0 = 0, flt_jc_k = 0, flt_jc_g = 0, flt_hp_state = 0, flt_hp_cutoff = 150,
      flt_hp_coeff = 0\<rparr>"

definition Filter303_updateCoefficients :: "Filter303 \<Rightarrow> Filter303" where
  "Filter303_updateCoefficients s =
     (let w_hp = 2 * pi * flt_hp_cutoff s
      in s\<lparr>flt_hp_coeff := exp (- w_hp / flt_sampleRate s)\<rparr>)"

definition Filter303_setCutoff :: "real \<Rightarrow> Filter303 \<Rightarrow> Filter303" where
  "Filter303_setCutoff freq s = Filter303_updateCoefficients (s\<lparr>flt_cutoff := freq\<rparr>)"

definition Filter303_setResonance :: "real \<Rightarrow> Filter303 \<Rightarrow> Filter303" where
  "Filter303_setResonance res s = s\<lparr>flt_resonance := max 0 res\<rparr>"

definition Filter303_setEnvMod :: "real \<Rightarrow> Filter303 \<Rightarrow> Filter303" where
  "Filter303_setEnvMod amount s = s\<lparr>flt_envMod := amount\<rparr>"

definition Filter303_setFMAmount :: "real \<Rightarrow> Filter303 \<Rightarrow> Filter303" where
  "Filter303_setFMAmount amount s = s\<lparr>flt_fmAmount := amount\<rparr>"

definition Filter303_getCutoff :: "Filter303 \<Rightarrow> real" where
  "Filter303_getCutoff s = flt_cutoff s"

definition Filter303_getEnvMod :: "Filter303 \<Rightarrow> real" where
  "Filter303_getEnvMod s = flt_envMod s"

definition Filter303_processFeedbackHPF :: "real \<Rightarrow> Filter303 \<Rightarrow> real \<times> Filter303" where
  "Filter303_processFeedbackHPF input s =
     (let s1 = s\<lparr>flt_hp_state := flt_hp_state s + (1 - flt_hp_coeff s) * (input - flt_hp_state s)\<rparr>
      in (input - flt_hp_state s1, s1))"

text \<open>
  \<open>process\<close>, in the source's order. Its first lines, up to the clamp of \<open>modCutoff\<close>,
  are the functions \<open>Filter303_envOffset\<close> (the first value of \<open>modAmt\<close>),
  \<open>Filter303_modAmt\<close> (after the FM branch) and \<open>Filter303_modCutoff\<close>; the rest computes
  the coefficients from \<open>modCutoff\<close> and updates the ladder.
\<close>

definition Filter303_envOffset :: "Filter303 \<Rightarrow> real \<Rightarrow> real" where
  "Filter303_envOffset s env =
     min (max (flt_envMod s * env) (- 0.95 * flt_cutoff s)) (4 * flt_cutoff s)"

definition Filter303_modAmt :: "Filter303 \<Rightarrow> real \<Rightarrow> real \<Rightarrow> real" where
  "Filter303_modAmt s env fmInput =
     (if flt_fmAmount s > 0.001
      then Filter303_envOffset s env + flt_fmAmount s * fmInput * 0.5 * flt_cutoff s
      else Filter303_envOffset s env)"

definition Filter303_modCutoff :: "Filter303 \<Rightarrow> real \<Rightarrow> real \<Rightarrow> real" where
  "Filter303_modCutoff s env fmInput =
     min (max (flt_cutoff s + Filter303_modAmt s env fmInput) 5) (0.45 * flt_sampleRate s)"

definition Filter303_ladder :: "Filter303 \<Rightarrow> real \<Rightarrow> real \<Rightarrow> real \<times> Filter303" where
  \<comment> \<open>the part of \<open>process\<close> after the clamp, as a function of \<open>modCutoff\<close>\<close>
  "Filter303_ladder s input modCutoff =
     (let wc = 2 * pi * modCutoff / flt_sampleRate s;
          fx = wc * 0.70710678 / (2 * pi);
          b0 = (0.00045522346 + 6.1922189 * fx) / (1 + 12.358354 * fx + 4.4156345 * (fx * fx));
          k0 = fx*(fx*(fx*(fx*(fx*(fx+7198.6997)-5837.7917)-476.47308)+614.95611)+213.87126)+16.998792;
          g0 = k0 * 0.058823529411764705882352941176471;
          r_skew = (1 - exp (- 3 * flt_resonance s)) / 0.9502129316;
          g1 = (g0 - 1) * r_skew + 1;
          g = g1 * (1 + r_skew);
          k = k0 * r_skew;
          (feedback, s1) = Filter303_processFeedbackHPF (k * flt_y4 s) s;
          y0 = input - feedback;
          s2 = s1\<lparr>flt_y1 := flt_y1 s1 + 2 * b0 * (y0 - flt_y1 s1 + flt_y2 s1)\<rparr>;
          s3 = s2\<lparr>flt_y2 := flt_y2 s2 + b0 * (flt_y1 s2 - 2 * flt_y2 s2 + flt_y3 s2)\<rparr>;
          s4 = s3\<lparr>flt_y3 := flt_y3 s3 + b0 * (flt_y2 s3 - 2 * flt_y3 s3 + flt_y4 s3)\<rparr>;
          s5 = s4\<lparr>flt_y4 := flt_y4 s4 + b0 * (flt_y3 s4 - 2 * flt_y4 s4)\<rparr>
      in (2 * g * flt_y4 s5, s5))"

definition Filter303_process :: "Filter303 \<Rightarrow> real \<Rightarrow> real \<Rightarrow> real \<Rightarrow> real \<Rightarrow> real \<times> Filter303" where
  "Filter303_process s input env accentEnv fmInput =
     Filter303_ladder s input (Filter303_modCutoff s env fmInput)"

fun Filter303_process_all :: "(real \<times> real \<times> real \<times> real) list \<Rightarrow> Filter303 \<Rightarrow> Filter303" where
  \<comment> \<open>the object after one \<open>process\<close> call per element (input, env, accentEnv, fmInput)\<close>
  "Filter303_process_all [] s = s"
| "Filter303_process_all ((input, env, accentEnv, fmInput) # xs) s =
     Filter303_process_all xs (snd (Filter303_process s input env accentEnv fmInput))"

section \<open>Invariants of the objects\<close>



text \<open>
  The invariant of an \<open>AnalogEnvelope\<close> whose sample rate and release time have always
  been positive: the release coefficient lies strictly between 0 and 1, the other two
  coefficients are positive and the level is not negative.
\<close>

definition AE_inv :: "AnalogEnvelope \<Rightarrow> bool" where
  "AE_inv s \<longleftrightarrow> 0 < aenv_sampleRate s \<and> 0 < aenv_releaseTime s
     \<and> 0 < aenv_releaseCoeff s \<and> aenv_releaseCoeff s < 1
     \<and> 0 < aenv_attackCoeff s \<and> 0 < aenv_decayCoeff s \<and> 0 \<le> aenv_currentLevel s"

text \<open>
  What holds after \<open>noteOff\<close> until the next \<open>noteOn\<close>: the release coefficient is \<open>k\<close>,
  the level is not negative, and the stage is Release, or Idle with level 0.
\<close>

definition AE_rel :: "real \<Rightarrow> AnalogEnvelope \<Rightarrow> bool" where
  "AE_rel k s \<longleftrightarrow> aenv_releaseCoeff s = k \<and> 0 \<le> aenv_currentLevel s
     \<and> (aenv_state s = RELEASE \<or> aenv_state s = IDLE \<and> aenv_currentLevel s = 0)"

text \<open>
  The invariant of an \<open>Oscillator\<close> whose sample rates, frequencies and glide targets have
  always been positive.
\<close>

definition O_inv :: "Oscillator \<Rightarrow> bool" where
  "O_inv s \<longleftrightarrow> 0 < osc_sampleRate s \<and> 0 < osc_frequency s
     \<and> 0 < osc_phaseIncrement s \<and> 0 < osc_subPhaseIncrement s
     \<and> 0 \<le> osc_phase s \<and> osc_phase s < 1 \<and> 0 \<le> osc_subPhase s \<and> osc_subPhase s < 1
     \<and> (0 < osc_glideCounter s \<longrightarrow> 0 < osc_glideStep s)
     \<and> 0 \<le> osc_blend s \<and> osc_blend s \<le> 1 \<and> 0 \<le> osc_subBlend s \<and> osc_subBlend s \<le> 1
     \<and> 0 < osc_pulseWidth s \<and> osc_pulseWidth s < 1"

text \<open>
  The settings at which the modulated cutoff sits on its upper clamp: sample rate 44100,
  base cutoff 10000, resonance 2, envelope depth 10000 and no FM, with the highpass
  coefficient that \<open>setCutoff\<close> computes.
\<close>

definition Filter303_limit :: "Filter303 \<Rightarrow> bool" where
  "Filter303_limit s \<longleftrightarrow> flt_sampleRate s = 44100 \<and> flt_cutoff s = 10000 \<and> flt_resonance s = 2
     \<and> flt_envMod s = 10000 \<and> flt_fmAmount s = 0
     \<and> 143 / 147 \<le> flt_hp_coeff s \<and> flt_hp_coeff s < 1"

text \<open>
  A cone of accumulator values, taken with the sign \<open>\<sigma>\<close>, that one \<open>process\<close> call at
  these settings maps into the cone of the opposite sign.
\<close>

definition Filter303_cone :: "real \<Rightarrow> Filter303 \<Rightarrow> bool" where
  "Filter303_cone \<sigma> s \<longleftrightarrow>
     (\<sigma> = 1 \<or> \<sigma> = - 1) \<and> 0 < \<sigma> * flt_y4 s
     \<and> 20 * (\<sigma> * flt_y4 s) \<le> \<sigma> * flt_y1 s \<and> \<sigma> * flt_y1 s \<le> 45 * (\<sigma> * flt_y4 s)
     \<and> 37 / 5 * (\<sigma> * flt_y4 s) \<le> \<sigma> * flt_y2 s \<and> \<sigma> * flt_y2 s \<le> 62 / 5 * (\<sigma> * flt_y4 s)
     \<and> 27 / 10 * (\<sigma> * flt_y4 s) \<le> \<sigma> * flt_y3 s \<and> \<sigma> * flt_y3 s \<le> 17 / 5 * (\<sigma> * flt_y4 s)
     \<and> 0 \<le> - \<sigma> * flt_hp_state s
     \<and> flt_hp_coeff s * (- \<sigma> * flt_hp_state s) \<le> (1 - flt_hp_coeff s) * 100 * (\<sigma> * flt_y4 s)"

section \<open>Filter303: what \<open>process\<close> changes, and the cutoff it computes with\<close>

lemma Filter303_ladder_frame:
  "snd (Filter303_ladder s input mc)
     \<lparr>flt_y1 := flt_y1 s, flt_y2 := flt_y2 s, flt_y3 := flt_y3 s, flt_y4 := flt_y4 s,
      flt_hp_state := flt_hp_state s\<rparr> = s"
  by (simp add: Filter303_ladder_def Filter303_processFeedbackHPF_def Let_def)

lemma Filter303_process_params:
  "flt_cutoff (snd (Filter303_process s input env accentEnv fmInput)) = flt_cutoff s"
  "flt_resonance (snd (Filter303_process s input env accentEnv fmInput)) = flt_resonance s"
  "flt_envMod (snd (Filter303_process s input env accentEnv fmInput)) = flt_envMod s"
  "flt_fmAmount (snd (Filter303_process s input env accentEnv fmInput)) = flt_fmAmount s"
  "flt_sampleRate (snd (Filter303_process s input env accentEnv fmInput)) = flt_sampleRate s"
  by (simp_all add: Filter303_process_def Filter303_ladder_def Filter303_processFeedbackHPF_def Let_def)

lemma Filter303_process_all_params:
  "flt_cutoff (Filter303_process_all xs s) = flt_cutoff s \<and>
   flt_resonance (Filter303_process_all xs s) = flt_resonance s \<and>
   flt_envMod (Filter303_process_all xs s) = flt_envMod s \<and>
   flt_fmAmount (Filter303_process_all xs s) = flt_fmAmount s \<and>
   flt_sampleRate (Filter303_process_all xs s) = flt_sampleRate s"
  by (induction xs s rule: Filter303_process_all.induct) (simp_all add: Filter303_process_params)

text \<open>
  Claim C10. \<open>Filter303::process\<close> changes only the four stage accumulators \<open>y1\<close> to
  \<open>y4\<close> and the feedback-highpass accumulator \<open>hp_state\<close>: putting the old values of
  these five fields back gives the object before the call. Hence \<open>cutoff\<close>,
  \<open>resonance\<close>, \<open>envMod\<close>, \<open>fmAmount\<close> and \<open>sampleRate\<close> are the same after any
  number of \<open>process\<close> calls, and \<open>getCutoff\<close> and \<open>getEnvMod\<close> return the value last
  passed to \<open>setCutoff\<close> and \<open>setEnvMod\<close> however many samples were processed since.
\<close>

theorem Filter303_process_frame:
  "snd (Filter303_process s input env accentEnv fmInput)
     \<lparr>flt_y1 := flt_y1 s, flt_y2 := flt_y2 s, flt_y3 := flt_y3 s, flt_y4 := flt_y4 s,
      flt_hp_state := flt_hp_state s\<rparr> = s
   \<and> flt_cutoff (Filter303_process_all xs s) = flt_cutoff s
   \<and> flt_resonance (Filter303_process_all xs s) = flt_resonance s
   \<and> flt_envMod (Filter303_process_all xs s) = flt_envMod s
   \<and> flt_fmAmount (Filter303_process_all xs s) = flt_fmAmount s
   \<and> flt_sampleRate (Filter303_process_all xs s) = flt_sampleRate s
   \<and> Filter303_getCutoff (Filter303_process_all xs (Filter303_setCutoff c s)) = c
   \<and> Filter303_getEnvMod (Filter303_process_all xs (Filter303_setEnvMod m s)) = m"
  using Filter303_process_all_params[of xs]
  by (simp add: Filter303_process_def Filter303_ladder_frame Filter303_getCutoff_def Filter303_getEnvMod_def
      Filter303_setCutoff_def Filter303_setEnvMod_def Filter303_updateCoefficients_def Let_def)





text \<open>
  The ladder update of \<open>process\<close> written out: the coefficient \<open>b0\<close>, the gains \<open>k\<close>
  and \<open>g\<close> are the source's formulas in \<open>fx = modCutoff * 0.70710678 / sampleRate\<close>
  (the factor \<open>2 * pi\<close> of \<open>wc\<close> cancels).
\<close>

lemma Filter303_ladder_b0:
  "let fx = mc * 0.70710678 / flt_sampleRate s;
       b0 = (0.00045522346 + 6.1922189 * fx) / (1 + 12.358354 * fx + 4.4156345 * (fx * fx));
       k0 = fx*(fx*(fx*(fx*(fx*(fx+7198.6997)-5837.7917)-476.47308)+614.95611)+213.87126)+16.998792;
       r_skew = (1 - exp (- 3 * flt_resonance s)) / 0.9502129316;
       g = ((k0 * 0.058823529411764705882352941176471 - 1) * r_skew + 1) * (1 + r_skew);
       k = k0 * r_skew;
       t = snd (Filter303_ladder s input mc);
       feedback = k * flt_y4 s - flt_hp_state t
   in flt_hp_state t = flt_hp_state s + (1 - flt_hp_coeff s) * (k * flt_y4 s - flt_hp_state s)
    \<and> flt_y1 t = flt_y1 s + 2 * b0 * (input - feedback - flt_y1 s + flt_y2 s)
    \<and> flt_y2 t = flt_y2 s + b0 * (flt_y1 t - 2 * flt_y2 s + flt_y3 s)
    \<and> flt_y3 t = flt_y3 s + b0 * (flt_y2 t - 2 * flt_y3 s + flt_y4 s)
    \<and> flt_y4 t = flt_y4 s + b0 * (flt_y3 t - 2 * flt_y4 s)
    \<and> fst (Filter303_ladder s input mc) = 2 * g * flt_y4 t"
  by (simp add: Filter303_ladder_def Filter303_processFeedbackHPF_def Let_def)


lemma Filter303_modCutoff_explicit:
  "Filter303_envOffset s env
     = min (max (flt_envMod s * env) (- 0.95 * flt_cutoff s)) (4 * flt_cutoff s)"
  "Filter303_modCutoff s env fmInput
     = min (max (flt_cutoff s
                 + (if flt_fmAmount s > 0.001
                    then min (max (flt_envMod s * env) (- 0.95 * flt_cutoff s)) (4 * flt_cutoff s)
                         + flt_fmAmount s * fmInput * 0.5 * flt_cutoff s
                    else min (max (flt_envMod s * env) (- 0.95 * flt_cutoff s)) (4 * flt_cutoff s)))
                5)
           (0.45 * flt_sampleRate s)"
  by (simp_all add: Filter303_envOffset_def Filter303_modAmt_def Filter303_modCutoff_def)




section \<open>Filter303: growth of the accumulators at the upper clamp of the cutoff\<close>

text \<open>
  The coefficients that \<open>process\<close> computes when the modulated cutoff is
  \<open>0.45 * 44100 = 19845\<close> and the resonance is 2: \<open>fx = 0.318198051\<close>, \<open>b0\<close> close to
  0.36636, the feedback gain \<open>k\<close> above 100 and the output gain above 1.
\<close>

lemma Filter303_limit_fx: "(19845 * 0.70710678 / 44100 :: real) = 318198051 / 1000000000"
  by simp

lemma Filter303_limit_b0:
  fixes fx :: real
  assumes "fx = 318198051 / 1000000000"
  shows "3663559 / 10000000
           \<le> (0.00045522346 + 6.1922189 * fx) / (1 + 12.358354 * fx + 4.4156345 * (fx * fx))"
    and "(0.00045522346 + 6.1922189 * fx) / (1 + 12.358354 * fx + 4.4156345 * (fx * fx))
           \<le> 3663560 / 10000000"
  unfolding assms by simp_all

lemma Filter303_limit_k0:
  fixes fx :: real
  assumes "fx = 318198051 / 1000000000"
  shows "95602 / 1000 \<le> fx*(fx*(fx*(fx*(fx*(fx+7198.6997)-5837.7917)-476.47308)+614.95611)+213.87126)+16.998792"
    and "fx*(fx*(fx*(fx*(fx*(fx+7198.6997)-5837.7917)-476.47308)+614.95611)+213.87126)+16.998792 \<le> 95603 / 1000"
  unfolding assms by simp_all

lemma exp_6_lower: "244 \<le> exp (6::real)"
proof -
  have "1 + 1 + 1\<^sup>2 / 2 \<le> exp (1::real)" by (rule exp_lower_Taylor_quadratic) simp
  then have e: "5 / 2 \<le> exp (1::real)" by simp
  have "exp (6::real) = exp (of_nat 6 * 1)" by simp
  also have "\<dots> = exp 1 ^ 6" by (rule exp_of_nat_mult)
  finally have "exp (6::real) = exp 1 ^ 6" .
  moreover have "(5 / 2 :: real) ^ 6 \<le> exp 1 ^ 6" using e by (intro power_mono) simp_all
  moreover have "(244::real) \<le> (5 / 2) ^ 6" by (simp add: power_divide)
  ultimately show ?thesis by linarith
qed

lemma Filter303_limit_r_skew:
  "104808 / 100000 \<le> (1 - exp (- 3 * (2::real))) / 0.9502129316"
  "(1 - exp (- 3 * (2::real))) / 0.9502129316 \<le> 10524 / 10000"
proof -
  define x where "x = exp (- 3 * (2::real))"
  have "x = inverse (exp 6)" by (simp add: x_def exp_minus)
  moreover have "inverse (exp (6::real)) \<le> inverse 244"
    using exp_6_lower by (intro le_imp_inverse_le) simp_all
  moreover have "0 < inverse (exp (6::real))" by simp
  ultimately have e: "x \<le> 1 / 244" "0 < x"
    by (simp_all add: inverse_eq_divide)
  have "104808 / 100000 * 0.9502129316 \<le> 1 - x" using e(1) by simp
  then have "104808 / 100000 \<le> (1 - x) / 0.9502129316" by (simp add: field_simps)
  then show "104808 / 100000 \<le> (1 - exp (- 3 * (2::real))) / 0.9502129316" unfolding x_def .
  have "1 - x \<le> 10524 / 10000 * 0.9502129316" using e(2) by simp
  then have "(1 - x) / 0.9502129316 \<le> 10524 / 10000" by (simp add: field_simps)
  then show "(1 - exp (- 3 * (2::real))) / 0.9502129316 \<le> 10524 / 10000" unfolding x_def .
qed

lemma Filter303_limit_k:
  fixes k0 r :: real
  assumes "95602 / 1000 \<le> k0" "k0 \<le> 95603 / 1000" "104808 / 100000 \<le> r" "r \<le> 10524 / 10000"
  shows "10019 / 100 \<le> k0 * r" and "k0 * r \<le> 10062 / 100"
    and "1 \<le> ((k0 * 0.058823529411764705882352941176471 - 1) * r + 1) * (1 + r)"
proof -
  have "(95602 / 1000) * (104808 / 100000) \<le> k0 * r" using assms by (intro mult_mono) simp_all
  then show "10019 / 100 \<le> k0 * r" by simp
  have "k0 * r \<le> (95603 / 1000) * (10524 / 10000)" using assms by (intro mult_mono) simp_all
  then show "k0 * r \<le> 10062 / 100" by simp
  have a: "0 \<le> (k0 * 0.058823529411764705882352941176471 - 1) * r"
    using assms by (intro mult_nonneg_nonneg) simp_all
  have "1 * 1 \<le> ((k0 * 0.058823529411764705882352941176471 - 1) * r + 1) * (1 + r)"
    using a assms by (intro mult_mono) simp_all
  then show "1 \<le> ((k0 * 0.058823529411764705882352941176471 - 1) * r + 1) * (1 + r)" by simp
qed

lemma Filter303_hp_coeff_bounds:
  "143 / 147 \<le> exp (- (2 * pi * 150) / 44100)" "exp (- (2 * pi * 150) / 44100) < 1"
proof -
  have "1 + (- (2 * pi * 150) / 44100) \<le> exp (- (2 * pi * 150) / 44100)"
    by (rule exp_ge_add_one_self)
  moreover have "pi < 4" by (rule pi_less_4)
  ultimately show "143 / 147 \<le> exp (- (2 * pi * 150) / 44100)" by simp
  have "- (2 * pi * 150) / 44100 < 0" using pi_gt_zero by simp
  then show "exp (- (2 * pi * 150) / 44100) < 1" by simp
qed

text \<open>
  One step of the ladder in sign-adjusted coordinates: \<open>p1\<close> to \<open>p4\<close> are the accumulators
  and \<open>F\<close> the feedback, \<open>n1\<close> to \<open>n4\<close> the accumulators after the step with the opposite
  sign.
\<close>

lemma Filter303_b0_scale:
  fixes b x :: real
  assumes "3663559 / 10000000 \<le> b" and "b \<le> 3663560 / 10000000" and "0 \<le> x"
  shows "3663559 / 10000000 * x \<le> b * x" and "b * x \<le> 3663560 / 10000000 * x"
  by (rule mult_right_mono[OF assms(1) assms(3)]) (rule mult_right_mono[OF assms(2) assms(3)])

lemma Filter303_cone_step_box:
  fixes p1 p2 p3 p4 F b n1 n2 n3 n4 :: real
  assumes bL: "3663559 / 10000000 \<le> b" and bH: "b \<le> 3663560 / 10000000"
    and p4: "0 < p4"
    and box: "20 * p4 \<le> p1" "p1 \<le> 45 * p4" "37 / 5 * p4 \<le> p2" "p2 \<le> 62 / 5 * p4"
             "27 / 10 * p4 \<le> p3" "p3 \<le> 17 / 5 * p4"
    and F: "9745 / 100 * p4 \<le> F"
    and n1: "n1 = 2 * (b * F) - p1 + 2 * (b * p1) - 2 * (b * p2)"
    and n2: "n2 = b * n1 - p2 + 2 * (b * p2) - b * p3"
    and n3: "n3 = b * n2 - p3 + 2 * (b * p3) - b * p4"
    and n4: "n4 = b * n3 - p4 + 2 * (b * p4)"
  shows "9 / 8 * p4 \<le> n4"
    and "20 * n4 \<le> n1" and "n1 \<le> 45 * n4"
    and "37 / 5 * n4 \<le> n2" and "n2 \<le> 62 / 5 * n4"
    and "27 / 10 * n4 \<le> n3" and "n3 \<le> 17 / 5 * n4"
proof -
  have pos: "0 \<le> F" "0 \<le> p1" "0 \<le> p2" "0 \<le> p3" "0 \<le> p4"
    using p4 box F by linarith+
  note sF = Filter303_b0_scale[OF bL bH pos(1)]
  note s1 = Filter303_b0_scale[OF bL bH pos(2)]
  note s2 = Filter303_b0_scale[OF bL bH pos(3)]
  note s3 = Filter303_b0_scale[OF bL bH pos(4)]
  note s4 = Filter303_b0_scale[OF bL bH pos(5)]
  have n1L: "7327118 / 10000000 * F - 2672882 / 10000000 * p1 - 7327120 / 10000000 * p2 \<le> n1"
    using n1 sF s1 s2 by linarith
  have n1U: "n1 \<le> 7327120 / 10000000 * F - 2672880 / 10000000 * p1 - 7327118 / 10000000 * p2"
    using n1 sF s1 s2 by linarith
  have n1p: "0 \<le> n1" using n1L p4 box F by linarith
  note t1 = Filter303_b0_scale[OF bL bH n1p]
  have n2L: "3663559 / 10000000 * n1 - 2672882 / 10000000 * p2 - 3663560 / 10000000 * p3 \<le> n2"
    using n2 t1 s2 s3 by linarith
  have n2U: "n2 \<le> 3663560 / 10000000 * n1 - 2672880 / 10000000 * p2 - 3663559 / 10000000 * p3"
    using n2 t1 s2 s3 by linarith
  have n2p: "0 \<le> n2" using n2L n1L p4 box F by linarith
  note t2 = Filter303_b0_scale[OF bL bH n2p]
  have n3L: "3663559 / 10000000 * n2 - 2672882 / 10000000 * p3 - 3663560 / 10000000 * p4 \<le> n3"
    using n3 t2 s3 s4 by linarith
  have n3U: "n3 \<le> 3663560 / 10000000 * n2 - 2672880 / 10000000 * p3 - 3663559 / 10000000 * p4"
    using n3 t2 s3 s4 by linarith
  have n3p: "0 \<le> n3" using n3L n2L n1L p4 box F by linarith
  note t3 = Filter303_b0_scale[OF bL bH n3p]
  have n4L: "3663559 / 10000000 * n3 - 2672882 / 10000000 * p4 \<le> n4"
    using n4 t3 s4 by linarith
  have n4U: "n4 \<le> 3663560 / 10000000 * n3 - 2672880 / 10000000 * p4"
    using n4 t3 s4 by linarith
  show "9 / 8 * p4 \<le> n4" using n4L n3L n2L n1L p4 box F by linarith
  show "20 * n4 \<le> n1" using n4U n3U n2U n1L n1U p4 box F by linarith
  show "n1 \<le> 45 * n4" using n4L n3L n2L n1L n1U p4 box F by linarith
  show "37 / 5 * n4 \<le> n2" using n4U n3U n2L n2U n1L n1U p4 box F by linarith
  show "n2 \<le> 62 / 5 * n4" using n4L n3L n2L n2U n1L n1U p4 box F by linarith
  show "27 / 10 * n4 \<le> n3" using n4U n4L n3L n3U n2L n2U n1L n1U p4 box F by linarith
  show "n3 \<le> 17 / 5 * n4" using n4U n4L n3L n3U n2L n2U n1L n1U p4 box F by linarith
qed


lemma Filter303_cone_feedback:
  fixes p4 q k c :: real
  assumes k: "10019 / 100 \<le> k" and c: "143 / 147 \<le> c" "c < 1"
    and p4: "0 < p4" and q: "0 \<le> q"
  shows "9745 / 100 * p4 \<le> c * (k * p4 + q)"
proof -
  define A where "A = c * k * p4"
  define Q where "Q = c * q"
  have "(143 / 147) * (10019 / 100) \<le> c * k"
    using k c by (intro mult_mono) simp_all
  then have ck: "9745 / 100 \<le> c * k" by simp
  have "9745 / 100 * p4 \<le> (c * k) * p4" using ck p4 by (intro mult_right_mono) simp_all
  then have 1: "9745 / 100 * p4 \<le> A" by (simp add: A_def)
  have 2: "0 \<le> Q" using c q by (simp add: Q_def)
  have e: "c * (k * p4 + q) = A + Q" by (simp add: A_def Q_def algebra_simps)
  show ?thesis unfolding e using 1 2 by linarith
qed

lemma Filter303_cone_highpass:
  fixes p4 n4 q k c :: real
  assumes k: "100 \<le> k" "k \<le> 10062 / 100" and c: "143 / 147 \<le> c" "c < 1"
    and p4: "0 < p4" and n4: "9 / 8 * p4 \<le> n4"
    and q: "0 \<le> q" "c * q \<le> (1 - c) * 100 * p4"
  shows "0 \<le> (1 - c) * k * p4 - c * q"
    and "c * ((1 - c) * k * p4 - c * q) \<le> (1 - c) * 100 * n4"
proof -
  define d where "d = (1 - c) * p4"
  define Q where "Q = c * q"
  have d: "0 \<le> d" using c p4 by (simp add: d_def)
  have Q: "0 \<le> Q" "Q \<le> 100 * d" using c q by (simp_all add: Q_def d_def algebra_simps)
  have kd: "100 * d \<le> k * d" "k * d \<le> 10062 / 100 * d"
    by (rule mult_right_mono[OF k(1) d]) (rule mult_right_mono[OF k(2) d])
  define W where "W = k * d - Q"
  define M where "M = (1 - c) * n4"
  have e: "(1 - c) * k * p4 - c * q = W" by (simp add: W_def d_def Q_def algebra_simps)
  have nn: "0 \<le> W" unfolding W_def using Q kd by linarith
  show "0 \<le> (1 - c) * k * p4 - c * q" unfolding e by (rule nn)
  have "c * W \<le> 1 * W" using c nn by (intro mult_right_mono) simp_all
  then have "c * W \<le> W" by simp
  moreover have "W \<le> 10062 / 100 * d" unfolding W_def using kd Q by linarith
  ultimately have 1: "c * W \<le> 10062 / 100 * d" by linarith
  have "(1 - c) * (9 / 8 * p4) \<le> (1 - c) * n4" using c n4 by (intro mult_left_mono) simp_all
  then have 2: "9 / 8 * d \<le> M" by (simp add: d_def M_def algebra_simps)
  have 3: "(1 - c) * 100 * n4 = 100 * M" by (simp add: M_def)
  show "c * ((1 - c) * k * p4 - c * q) \<le> (1 - c) * 100 * n4"
    unfolding e 3 using 1 2 d by linarith
qed

text \<open>
  At these settings and with the envelope at 1, \<open>process\<close> computes with the cutoff
  19845, whatever the accumulators hold.
\<close>

lemma Filter303_process_hp_coeff:
  "flt_hp_coeff (snd (Filter303_process s x env a f)) = flt_hp_coeff s"
  by (simp add: Filter303_process_def Filter303_ladder_def Filter303_processFeedbackHPF_def Let_def)

lemma Filter303_limit_modCutoff:
  "Filter303_limit s \<Longrightarrow> Filter303_modCutoff s 1 f = 19845"
  by (simp add: Filter303_limit_def Filter303_modCutoff_def Filter303_modAmt_def
      Filter303_envOffset_def)

lemma Filter303_limit_preserved:
  "Filter303_limit s \<Longrightarrow> Filter303_limit (snd (Filter303_process s x env a f))"
  by (simp add: Filter303_limit_def Filter303_process_params Filter303_process_hp_coeff)

lemma Filter303_limit_equations:
  assumes L: "Filter303_limit s"
  shows "\<exists>b k g. 3663559 / 10000000 \<le> b \<and> b \<le> 3663560 / 10000000
      \<and> 10019 / 100 \<le> k \<and> k \<le> 10062 / 100 \<and> 1 \<le> g
      \<and> flt_hp_state (snd (Filter303_process s x 1 a f))
          = flt_hp_state s + (1 - flt_hp_coeff s) * (k * flt_y4 s - flt_hp_state s)
      \<and> flt_y1 (snd (Filter303_process s x 1 a f))
          = flt_y1 s + 2 * b * (x - (k * flt_y4 s - flt_hp_state (snd (Filter303_process s x 1 a f)))
                                - flt_y1 s + flt_y2 s)
      \<and> flt_y2 (snd (Filter303_process s x 1 a f))
          = flt_y2 s + b * (flt_y1 (snd (Filter303_process s x 1 a f)) - 2 * flt_y2 s + flt_y3 s)
      \<and> flt_y3 (snd (Filter303_process s x 1 a f))
          = flt_y3 s + b * (flt_y2 (snd (Filter303_process s x 1 a f)) - 2 * flt_y3 s + flt_y4 s)
      \<and> flt_y4 (snd (Filter303_process s x 1 a f))
          = flt_y4 s + b * (flt_y3 (snd (Filter303_process s x 1 a f)) - 2 * flt_y4 s)
      \<and> fst (Filter303_process s x 1 a f) = 2 * g * flt_y4 (snd (Filter303_process s x 1 a f))"
proof -
  define fx :: real where "fx = 318198051 / 1000000000"
  define b where
    "b = (0.00045522346 + 6.1922189 * fx) / (1 + 12.358354 * fx + 4.4156345 * (fx * fx))"
  define k0 where
    "k0 = fx*(fx*(fx*(fx*(fx*(fx+7198.6997)-5837.7917)-476.47308)+614.95611)+213.87126)+16.998792"
  define r where "r = (1 - exp (- 3 * (2::real))) / 0.9502129316"
  have sr: "flt_sampleRate s = 44100" and res: "flt_resonance s = 2"
    using L by (simp_all add: Filter303_limit_def)
  have fx: "19845 * 0.70710678 / flt_sampleRate s = fx"
    unfolding sr fx_def by (rule Filter303_limit_fx)
  have p: "Filter303_process s x 1 a f = Filter303_ladder s x 19845"
    by (simp add: Filter303_process_def Filter303_limit_modCutoff[OF L])
  note E = Filter303_ladder_b0[of 19845 s x, unfolded Let_def fx res, folded b_def k0_def,
      folded r_def, folded p]
  note kb = Filter303_limit_k[OF Filter303_limit_k0[OF fx_def, folded k0_def]
      Filter303_limit_r_skew[folded r_def]]
  note bb = Filter303_limit_b0[OF fx_def, folded b_def]
  show ?thesis
    using E kb bb by blast
qed

text \<open>
  One \<open>process\<close> call with input 0 maps the cone of sign \<open>\<sigma>\<close> into the cone of sign
  \<open>- \<sigma>\<close>, the fourth accumulator grows by the factor \<open>9 / 8\<close> at least, and the sample
  returned is at least as large in magnitude as that accumulator.
\<close>

lemma Filter303_cone_step:
  assumes L: "Filter303_limit s" and C: "Filter303_cone \<sigma> s"
  shows "Filter303_cone (- \<sigma>) (snd (Filter303_process s 0 1 a f))"
    and "9 / 8 * (\<sigma> * flt_y4 s) \<le> - \<sigma> * flt_y4 (snd (Filter303_process s 0 1 a f))"
    and "- \<sigma> * flt_y4 (snd (Filter303_process s 0 1 a f)) \<le> \<bar>fst (Filter303_process s 0 1 a f)\<bar>"
proof -
  define t where "t = snd (Filter303_process s 0 1 a f)"
  define c where "c = flt_hp_coeff s"
  obtain b k g where bL: "3663559 / 10000000 \<le> b" and bH: "b \<le> 3663560 / 10000000"
    and kL: "10019 / 100 \<le> k" and kH: "k \<le> 10062 / 100" and g: "1 \<le> g"
    and hp: "flt_hp_state t = flt_hp_state s + (1 - c) * (k * flt_y4 s - flt_hp_state s)"
    and y1: "flt_y1 t = flt_y1 s + 2 * b * (0 - (k * flt_y4 s - flt_hp_state t) - flt_y1 s + flt_y2 s)"
    and y2: "flt_y2 t = flt_y2 s + b * (flt_y1 t - 2 * flt_y2 s + flt_y3 s)"
    and y3: "flt_y3 t = flt_y3 s + b * (flt_y2 t - 2 * flt_y3 s + flt_y4 s)"
    and y4: "flt_y4 t = flt_y4 s + b * (flt_y3 t - 2 * flt_y4 s)"
    and out: "fst (Filter303_process s 0 1 a f) = 2 * g * flt_y4 t"
    using Filter303_limit_equations[OF L, of 0 a f] unfolding t_def c_def by blast
  have cb: "143 / 147 \<le> c" "c < 1" using L by (simp_all add: Filter303_limit_def c_def)
  define p1 where "p1 = \<sigma> * flt_y1 s"
  define p2 where "p2 = \<sigma> * flt_y2 s"
  define p3 where "p3 = \<sigma> * flt_y3 s"
  define p4 where "p4 = \<sigma> * flt_y4 s"
  define q where "q = - \<sigma> * flt_hp_state s"
  define n1 where "n1 = - \<sigma> * flt_y1 t"
  define n2 where "n2 = - \<sigma> * flt_y2 t"
  define n3 where "n3 = - \<sigma> * flt_y3 t"
  define n4 where "n4 = - \<sigma> * flt_y4 t"
  define q' where "q' = - (- \<sigma>) * flt_hp_state t"
  define F where "F = c * (k * p4 + q)"
  have sg: "\<sigma> = 1 \<or> \<sigma> = - 1" and p4: "0 < p4"
    and box: "20 * p4 \<le> p1" "p1 \<le> 45 * p4" "37 / 5 * p4 \<le> p2" "p2 \<le> 62 / 5 * p4"
             "27 / 10 * p4 \<le> p3" "p3 \<le> 17 / 5 * p4"
    and qq: "0 \<le> q" "c * q \<le> (1 - c) * 100 * p4"
    using C unfolding Filter303_cone_def p1_def p2_def p3_def p4_def q_def c_def by blast+
  have eq': "q' = (1 - c) * k * p4 - c * q"
    unfolding q'_def hp p4_def q_def by algebra
  have eF: "\<sigma> * (k * flt_y4 s - flt_hp_state t) = F"
    unfolding F_def hp p4_def q_def by algebra
  have e1: "n1 = 2 * (b * F) - p1 + 2 * (b * p1) - 2 * (b * p2)"
    unfolding n1_def y1 eF[symmetric] p1_def p2_def by algebra
  have e2: "n2 = b * n1 - p2 + 2 * (b * p2) - b * p3"
    unfolding n2_def y2 n1_def p2_def p3_def by algebra
  have e3: "n3 = b * n2 - p3 + 2 * (b * p3) - b * p4"
    unfolding n3_def y3 n2_def p3_def p4_def by algebra
  have e4: "n4 = b * n3 - p4 + 2 * (b * p4)"
    unfolding n4_def y4 n3_def p4_def by algebra
  have FL: "9745 / 100 * p4 \<le> F"
    unfolding F_def using kL cb p4 qq(1) by (rule Filter303_cone_feedback)
  note S = Filter303_cone_step_box[OF bL bH p4 box FL e1 e2 e3 e4]
  have k100: "100 \<le> k" using kL by simp
  note H = Filter303_cone_highpass[OF k100 kH cb p4 S(1) qq, folded eq']
  have n4p: "0 < n4" using S(1) p4 by linarith
  have sg': "- \<sigma> = 1 \<or> - \<sigma> = - 1" using sg by auto
  have "Filter303_cone (- \<sigma>) t"
    unfolding Filter303_cone_def
    using sg' n4p S(2-7) H
    unfolding n1_def n2_def n3_def n4_def q'_def c_def
      Filter303_process_hp_coeff[of s 0 1 a f, folded t_def, symmetric]
    by blast
  then show "Filter303_cone (- \<sigma>) (snd (Filter303_process s 0 1 a f))" unfolding t_def .
  show "9 / 8 * (\<sigma> * flt_y4 s) \<le> - \<sigma> * flt_y4 (snd (Filter303_process s 0 1 a f))"
    using S(1) unfolding p4_def n4_def t_def .
  have "\<bar>2 * g * flt_y4 t\<bar> = 2 * g * \<bar>flt_y4 t\<bar>" using g by (simp add: abs_mult)
  moreover have "\<bar>flt_y4 t\<bar> = n4" using sg n4p unfolding n4_def by auto
  moreover have "1 * n4 \<le> g * n4" using g n4p by (intro mult_right_mono) simp_all
  ultimately have "n4 \<le> \<bar>2 * g * flt_y4 t\<bar>" using n4p by simp
  then show "- \<sigma> * flt_y4 (snd (Filter303_process s 0 1 a f)) \<le> \<bar>fst (Filter303_process s 0 1 a f)\<bar>"
    unfolding out n4_def t_def .
qed

text \<open>
  The first sample: an impulse of height 1 into the filter at rest puts the accumulators
  into the cone of sign 1.
\<close>

lemma Filter303_limit_start:
  "Filter303_limit (Filter303_setEnvMod 10000 (Filter303_setResonance 2
      (Filter303_setCutoff 10000 (Filter303_new 44100))))"
proof -
  have "flt_hp_coeff (Filter303_setEnvMod 10000 (Filter303_setResonance 2
          (Filter303_setCutoff 10000 (Filter303_new 44100))))
        = exp (- (2 * pi * 150) / 44100)"
    by (simp add: Filter303_setEnvMod_def Filter303_setResonance_def Filter303_setCutoff_def
        Filter303_updateCoefficients_def Filter303_new_def Let_def)
  then show ?thesis
    using Filter303_hp_coeff_bounds
    by (simp add: Filter303_limit_def Filter303_setEnvMod_def Filter303_setResonance_def
        Filter303_setCutoff_def Filter303_updateCoefficients_def Filter303_new_def Let_def)
qed

lemma Filter303_impulse:
  assumes L: "Filter303_limit s"
    and z: "flt_y1 s = 0" "flt_y2 s = 0" "flt_y3 s = 0" "flt_y4 s = 0" "flt_hp_state s = 0"
  shows "Filter303_cone 1 (snd (Filter303_process s 1 1 a f))"
    and "9 / 250 \<le> flt_y4 (snd (Filter303_process s 1 1 a f))"
proof -
  define t where "t = snd (Filter303_process s 1 1 a f)"
  obtain b k g where bL: "3663559 / 10000000 \<le> b" and bH: "b \<le> 3663560 / 10000000"
    and g: "1 \<le> (g::real)"
    and hp: "flt_hp_state t
               = flt_hp_state s + (1 - flt_hp_coeff s) * (k * flt_y4 s - flt_hp_state s)"
    and y1: "flt_y1 t = flt_y1 s + 2 * b * (1 - (k * flt_y4 s - flt_hp_state t) - flt_y1 s + flt_y2 s)"
    and y2: "flt_y2 t = flt_y2 s + b * (flt_y1 t - 2 * flt_y2 s + flt_y3 s)"
    and y3: "flt_y3 t = flt_y3 s + b * (flt_y2 t - 2 * flt_y3 s + flt_y4 s)"
    and y4: "flt_y4 t = flt_y4 s + b * (flt_y3 t - 2 * flt_y4 s)"
    using Filter303_limit_equations[OF L, of 1 a f] unfolding t_def by blast
  have h0: "flt_hp_state t = 0" unfolding hp z by simp
  have e1: "flt_y1 t = 2 * b" unfolding y1 h0 z by simp
  have e2: "flt_y2 t = b * flt_y1 t" unfolding y2 z by simp
  have e3: "flt_y3 t = b * flt_y2 t" unfolding y3 z by simp
  have e4: "flt_y4 t = b * flt_y3 t" unfolding y4 z by simp
  have p1: "0 \<le> flt_y1 t" "7327118 / 10000000 \<le> flt_y1 t" unfolding e1 using bL by simp_all
  note s1 = Filter303_b0_scale[OF bL bH p1(1), folded e2]
  have p2: "0 \<le> flt_y2 t" using s1 p1 by linarith
  note s2 = Filter303_b0_scale[OF bL bH p2, folded e3]
  have p3: "0 \<le> flt_y3 t" using s2 p2 by linarith
  note s3 = Filter303_b0_scale[OF bL bH p3, folded e4]
  have c: "flt_hp_coeff t = flt_hp_coeff s"
    unfolding t_def by (rule Filter303_process_hp_coeff)
  have cb: "flt_hp_coeff s < 1" using L by (simp add: Filter303_limit_def)
  have a1: "0 < 1 * flt_y4 t" using s1 s2 s3 p1 by linarith
  have a2: "20 * (1 * flt_y4 t) \<le> 1 * flt_y1 t" using s1 s2 s3 p1 by linarith
  have a3: "1 * flt_y1 t \<le> 45 * (1 * flt_y4 t)" using s1 s2 s3 p1 by linarith
  have a4: "37 / 5 * (1 * flt_y4 t) \<le> 1 * flt_y2 t" using s1 s2 s3 p1 by linarith
  have a5: "1 * flt_y2 t \<le> 62 / 5 * (1 * flt_y4 t)" using s1 s2 s3 p1 by linarith
  have a6: "27 / 10 * (1 * flt_y4 t) \<le> 1 * flt_y3 t" using s1 s2 s3 p1 by linarith
  have a7: "1 * flt_y3 t \<le> 17 / 5 * (1 * flt_y4 t)" using s1 s2 s3 p1 by linarith
  have a8: "0 \<le> - 1 * flt_hp_state t" unfolding h0 by simp
  have l: "flt_hp_coeff t * (- 1 * 0) = 0" by simp
  have "0 \<le> 1 - flt_hp_coeff t" using cb unfolding c by simp
  moreover have "0 \<le> 1 * flt_y4 t" using a1 by simp
  ultimately have r: "0 \<le> (1 - flt_hp_coeff t) * 100 * (1 * flt_y4 t)"
    by (intro mult_nonneg_nonneg) simp_all
  have a9: "flt_hp_coeff t * (- 1 * flt_hp_state t) \<le> (1 - flt_hp_coeff t) * 100 * (1 * flt_y4 t)"
    unfolding h0 l by (rule r)
  have "Filter303_cone 1 t"
    unfolding Filter303_cone_def using a1 a2 a3 a4 a5 a6 a7 a8 a9 by blast
  then show "Filter303_cone 1 (snd (Filter303_process s 1 1 a f))" unfolding t_def .
  have "9 / 250 \<le> flt_y4 t" using s1 s2 s3 p1 by linarith
  then show "9 / 250 \<le> flt_y4 (snd (Filter303_process s 1 1 a f))" unfolding t_def .
qed

text \<open>
  Any number of further samples with input 0 and the envelope at 1 keep the accumulators
  in the cone, with alternating sign, and the fourth accumulator grows by the factor
  \<open>9 / 8\<close> at least with every sample.
\<close>

lemma Filter303_cone_growth:
  "Filter303_limit s \<Longrightarrow> Filter303_cone \<sigma> s \<Longrightarrow>
   \<exists>\<sigma>'. Filter303_limit (Filter303_process_all (replicate n (0, 1, 0, 0)) s)
      \<and> Filter303_cone \<sigma>' (Filter303_process_all (replicate n (0, 1, 0, 0)) s)
      \<and> (9 / 8) ^ n * (\<sigma> * flt_y4 s)
          \<le> \<sigma>' * flt_y4 (Filter303_process_all (replicate n (0, 1, 0, 0)) s)"
proof (induction n arbitrary: s \<sigma>)
  case 0
  then show ?case by auto
next
  case (Suc n)
  define t where "t = snd (Filter303_process s 0 1 0 0)"
  have Lt: "Filter303_limit t" unfolding t_def using Suc.prems(1) by (rule Filter303_limit_preserved)
  have Ct: "Filter303_cone (- \<sigma>) t"
    unfolding t_def using Suc.prems by (rule Filter303_cone_step(1))
  have gr: "9 / 8 * (\<sigma> * flt_y4 s) \<le> - \<sigma> * flt_y4 t"
    unfolding t_def using Suc.prems by (rule Filter303_cone_step(2))
  obtain \<sigma>' where L': "Filter303_limit (Filter303_process_all (replicate n (0, 1, 0, 0)) t)"
    and C': "Filter303_cone \<sigma>' (Filter303_process_all (replicate n (0, 1, 0, 0)) t)"
    and G': "(9 / 8) ^ n * (- \<sigma> * flt_y4 t)
              \<le> \<sigma>' * flt_y4 (Filter303_process_all (replicate n (0, 1, 0, 0)) t)"
    using Suc.IH[OF Lt Ct] by blast
  have "(9 / 8) ^ n * (9 / 8 * (\<sigma> * flt_y4 s)) \<le> (9 / 8) ^ n * (- \<sigma> * flt_y4 t)"
    using gr by (intro mult_left_mono) simp_all
  then have "(9 / 8) ^ Suc n * (\<sigma> * flt_y4 s)
               \<le> \<sigma>' * flt_y4 (Filter303_process_all (replicate n (0, 1, 0, 0)) t)"
    using G' by (simp add: mult.assoc)
  moreover have "Filter303_process_all (replicate (Suc n) (0, 1, 0, 0)) s
                   = Filter303_process_all (replicate n (0, 1, 0, 0)) t"
    by (simp add: t_def)
  ultimately show ?case using L' C' by auto
qed

lemma Filter303_growth_bound:
  "(340282346638528859811704183484516925440 :: real) < (9 / 8) ^ 998 * (9 / 250)"
proof -
  have "(2::real) \<le> (9 / 8) ^ 6" by (simp add: power_divide)
  then have "(2::real) ^ 166 \<le> ((9 / 8) ^ 6) ^ 166" by (intro power_mono) simp_all
  also have "\<dots> = (9 / 8) ^ 996" by (simp add: power_mult[symmetric])
  also have "\<dots> \<le> (9 / 8) ^ 998" by (intro power_increasing) simp_all
  finally have "(2::real) ^ 166 * (9 / 250) \<le> (9 / 8) ^ 998 * (9 / 250)" by simp
  moreover have "(340282346638528859811704183484516925440 :: real) < 2 ^ 166 * (9 / 250)"
    by simp
  ultimately show ?thesis by linarith
qed

text \<open>
  Claim C1, at an input where the code departs from it. Resonance 2 and base cutoff 10000
  at 44100 Hz are inside the ranges of the claim. With the envelope depth at 10000 and the
  envelope at 1 the modulated cutoff is clamped to \<open>0.45 * 44100\<close>; there the loop gain
  of the ladder exceeds what the feedback highpass and the clamp can hold. One input
  sample of 1 followed by 998 samples of 0 leaves the fourth stage accumulator beyond
  the largest finite single-precision number, \<open>(2 - 2 powr -23) * 2 powr 127\<close>, and the
  next sample returned is beyond it too. The accumulators computed here are those of exact
  arithmetic; a \<open>float\<close> cannot hold such a value, so the code leaves the finite
  numbers within the first 1000 samples.
\<close>

theorem Filter303_resonance_overflow:
  "let s = Filter303_setEnvMod 10000 (Filter303_setResonance 2
             (Filter303_setCutoff 10000 (Filter303_new 44100)));
       t = Filter303_process_all ((1, 1, 0, 0) # replicate 998 (0, 1, 0, 0)) s
   in 340282346638528859811704183484516925440 < \<bar>flt_y4 t\<bar>
    \<and> 340282346638528859811704183484516925440 < \<bar>fst (Filter303_process t 0 1 0 0)\<bar>"
proof -
  define s where "s = Filter303_setEnvMod 10000 (Filter303_setResonance 2
             (Filter303_setCutoff 10000 (Filter303_new 44100)))"
  define s1 where "s1 = snd (Filter303_process s 1 1 0 0)"
  define t where "t = Filter303_process_all ((1, 1, 0, 0) # replicate 998 (0, 1, 0, 0)) s"
  have L: "Filter303_limit s" unfolding s_def by (rule Filter303_limit_start)
  have z: "flt_y1 s = 0" "flt_y2 s = 0" "flt_y3 s = 0" "flt_y4 s = 0" "flt_hp_state s = 0"
    by (simp_all add: s_def Filter303_setEnvMod_def Filter303_setResonance_def
        Filter303_setCutoff_def Filter303_updateCoefficients_def Filter303_new_def Let_def)
  have L1: "Filter303_limit s1" unfolding s1_def using L by (rule Filter303_limit_preserved)
  have C1: "Filter303_cone 1 s1" unfolding s1_def using L z by (rule Filter303_impulse(1))
  have y1: "9 / 250 \<le> flt_y4 s1" unfolding s1_def using L z by (rule Filter303_impulse(2))
  have t: "t = Filter303_process_all (replicate 998 (0, 1, 0, 0)) s1"
    by (simp add: t_def s1_def)
  obtain \<sigma> where Lt: "Filter303_limit t" and Ct: "Filter303_cone \<sigma> t"
    and G: "(9 / 8) ^ 998 * (1 * flt_y4 s1) \<le> \<sigma> * flt_y4 t"
    using Filter303_cone_growth[OF L1 C1, of 998] unfolding t by blast
  have "(9 / 8) ^ 998 * (9 / 250) \<le> (9 / 8) ^ 998 * (1 * flt_y4 s1)"
    using y1 by (intro mult_left_mono) simp_all
  then have big: "340282346638528859811704183484516925440 < \<sigma> * flt_y4 t"
    using G Filter303_growth_bound by linarith
  have sg: "\<sigma> = 1 \<or> \<sigma> = - 1" using Ct by (simp add: Filter303_cone_def)
  then have a: "\<bar>flt_y4 t\<bar> = \<sigma> * flt_y4 t" using big by auto
  have 1: "340282346638528859811704183484516925440 < \<bar>flt_y4 t\<bar>" unfolding a by (rule big)
  have "9 / 8 * (\<sigma> * flt_y4 t) \<le> - \<sigma> * flt_y4 (snd (Filter303_process t 0 1 0 0))"
    using Lt Ct by (rule Filter303_cone_step(2))
  moreover have "- \<sigma> * flt_y4 (snd (Filter303_process t 0 1 0 0))
                   \<le> \<bar>fst (Filter303_process t 0 1 0 0)\<bar>"
    using Lt Ct by (rule Filter303_cone_step(3))
  ultimately have 2: "340282346638528859811704183484516925440 < \<bar>fst (Filter303_process t 0 1 0 0)\<bar>"
    using big by linarith
  show ?thesis
    unfolding Let_def s_def[symmetric] t_def[symmetric] using 1 2 by blast
qed

section \<open>AnalogEnvelope: the attack ramp\<close>

lemma AnalogEnvelope_process_fst:
  "fst (AnalogEnvelope_process s) = aenv_currentLevel (snd (AnalogEnvelope_process s))"
  by (simp add: AnalogEnvelope_process_def)


lemma AnalogEnvelope_step_coeffs:
  "aenv_attackCoeff (AnalogEnvelope_step s) = aenv_attackCoeff s"
  "aenv_decayCoeff (AnalogEnvelope_step s) = aenv_decayCoeff s"
  "aenv_releaseCoeff (AnalogEnvelope_step s) = aenv_releaseCoeff s"
  by (simp_all add: AnalogEnvelope_step_def Let_def)

lemma AnalogEnvelope_process_n_coeffs:
  "aenv_attackCoeff (AnalogEnvelope_process_n n s) = aenv_attackCoeff s"
  "aenv_decayCoeff (AnalogEnvelope_process_n n s) = aenv_decayCoeff s"
  "aenv_releaseCoeff (AnalogEnvelope_process_n n s) = aenv_releaseCoeff s"
  by (induction n) (simp_all add: AnalogEnvelope_process_def AnalogEnvelope_step_coeffs)






section \<open>Flooring of time constants\<close>

lemma DecayEnvelope_decayTime_floored:
  "0.1 \<le> denv_decayTime (DecayEnvelope_setDecayTime ms s)"
  by (simp add: DecayEnvelope_setDecayTime_def DecayEnvelope_calculateCoeff_def Let_def)

lemma Oscillator_glideSamples_floored:
  "1 \<le> osc_glideSamples (Oscillator_glideTo f ms s)"
  by (simp add: Oscillator_glideTo_def Let_def)

lemma AnalogEnvelope_attackCoeff_range:
  "0 < aenv_attackCoeff (AnalogEnvelope_calculateCoeffs s) \<and>
   aenv_attackCoeff (AnalogEnvelope_calculateCoeffs s) \<le> 1"
  by (simp add: AnalogEnvelope_calculateCoeffs_def Let_def)

text \<open>
  Claim C2, at an input where the code departs from it. \<open>DecayEnvelope\<close> floors its decay
  time to 0.1 ms, \<open>Oscillator::glideTo\<close> floors the glide length to one sample and
  \<open>AnalogEnvelope\<close> floors the attack length to one sample, but
  \<open>AnalogEnvelope::calculateCoeffs\<close> uses the decay and release times as they were
  passed: after \<open>setDecay(-1000)\<close> on a default envelope the stored decay time is still
  \<open>-1000\<close> and the decay coefficient is \<open>exp (1 / 44100)\<close>, greater than 1; after
  \<open>setRelease(0)\<close> the stored release time is 0, the divisor of the coefficient formula.
  The same argument given to \<open>DecayEnvelope::setDecayTime\<close> is floored to 0.1.
\<close>

theorem AnalogEnvelope_setDecay_not_floored:
  "aenv_decayTime (AnalogEnvelope_setDecay (- 1000) AnalogEnvelope_init) = - 1000
   \<and> aenv_decayCoeff (AnalogEnvelope_setDecay (- 1000) AnalogEnvelope_init) = exp (1 / 44100)
   \<and> 1 < aenv_decayCoeff (AnalogEnvelope_setDecay (- 1000) AnalogEnvelope_init)
   \<and> aenv_releaseTime (AnalogEnvelope_setRelease 0 AnalogEnvelope_init) = 0
   \<and> denv_decayTime (DecayEnvelope_setDecayTime (- 1000) DecayEnvelope_init) = 0.1"
  by (simp add: AnalogEnvelope_setDecay_def AnalogEnvelope_setRelease_def
      AnalogEnvelope_calculateCoeffs_def AnalogEnvelope_init_def
      DecayEnvelope_setDecayTime_def DecayEnvelope_calculateCoeff_def DecayEnvelope_init_def Let_def)

section \<open>Binary32 rounding\<close>




lemma round_even_zero [simp]: "round_even 0 = 0"
  by (simp add: round_even_def)

lemma f32_zero [simp]: "f32 0 = 0"
  by (simp add: f32_def)



lemma f32_exponent_ge: "- 126 \<le> f32_exponent x"
  by (simp add: f32_exponent_def)

lemma two_powr_int_nat:
  assumes "0 \<le> d"
  shows "(2::real) powr (of_int d) = of_int (2 ^ nat d)"
proof -
  have "(2::real) powr (of_int d) = 2 powr (real (nat d))" using assms by simp
  also have "\<dots> = 2 ^ nat d" by (simp add: powr_realpow)
  finally show ?thesis by simp
qed

text \<open>Every rounded value is a whole multiple of the smallest subnormal number.\<close>

lemma f32_grid: "\<exists>m :: int. f32 x = of_int m * 2 powr (- 149)"
proof -
  define E where "E = f32_exponent x"
  define r where "r = round_even (x / 2 powr (of_int (E - 23)))"
  have d: "0 \<le> E + 126" using f32_exponent_ge[of x] by (simp add: E_def)
  have "(2::real) powr (of_int (E - 23)) = 2 powr (of_int (E + 126) + (- 149))"
    by simp
  also have "\<dots> = 2 powr (of_int (E + 126)) * 2 powr (- 149)"
    by (rule powr_add)
  also have "\<dots> = of_int (2 ^ nat (E + 126)) * 2 powr (- 149)"
    by (simp only: two_powr_int_nat[OF d])
  finally have u: "(2::real) powr (of_int (E - 23)) = of_int (2 ^ nat (E + 126)) * 2 powr (- 149)" .
  have "f32 x = of_int r * 2 powr (of_int (E - 23))"
    by (simp add: f32_def Let_def r_def E_def)
  also have "\<dots> = of_int (r * 2 ^ nat (E + 126)) * 2 powr (- 149)"
    unfolding u by simp
  finally show ?thesis by blast
qed










section \<open>DecayEnvelope: the level after a trigger\<close>


























section \<open>AnalogEnvelope: release after \<open>noteOff\<close>\<close>

lemma AE_inv_init: "AE_inv AnalogEnvelope_init"
  by (simp add: AE_inv_def AnalogEnvelope_init_def)

lemma AE_inv_calculateCoeffs:
  assumes "0 < aenv_sampleRate s" and "0 < aenv_releaseTime s" and "0 \<le> aenv_currentLevel s"
  shows "AE_inv (AnalogEnvelope_calculateCoeffs s)"
proof -
  have "0 < 0.001 * aenv_releaseTime s * aenv_sampleRate s" using assms by simp
  then have "- 1 / (0.001 * aenv_releaseTime s * aenv_sampleRate s) < 0" by simp
  then have "exp (- 1 / (0.001 * aenv_releaseTime s * aenv_sampleRate s)) < 1" by simp
  then show ?thesis
    using assms by (simp add: AE_inv_def AnalogEnvelope_calculateCoeffs_def Let_def)
qed

lemma AE_inv_step:
  assumes "AE_inv s"
  shows "AE_inv (AnalogEnvelope_step s)"
proof -
  have "0 \<le> aenv_currentLevel s * aenv_decayCoeff s" "0 \<le> aenv_currentLevel s * aenv_releaseCoeff s"
    using assms by (simp_all add: AE_inv_def)
  then show ?thesis
    using assms by (simp add: AE_inv_def AnalogEnvelope_step_def Let_def)
qed

lemma AE_inv_apply:
  assumes "AE_inv s" and "AnalogEnvelope_call_ok c"
  shows "AE_inv (AnalogEnvelope_apply c s)"
proof (cases c)
  case (AE_setSampleRate sr)
  have "AE_inv (AnalogEnvelope_calculateCoeffs (s\<lparr>aenv_sampleRate := sr\<rparr>))"
    using assms AE_setSampleRate by (intro AE_inv_calculateCoeffs) (simp_all add: AE_inv_def)
  then show ?thesis using AE_setSampleRate by (simp add: AnalogEnvelope_setSampleRate_def)
next
  case (AE_setDecay ms)
  have "AE_inv (AnalogEnvelope_calculateCoeffs (s\<lparr>aenv_decayTime := ms\<rparr>))"
    using assms by (intro AE_inv_calculateCoeffs) (simp_all add: AE_inv_def)
  then show ?thesis using AE_setDecay by (simp add: AnalogEnvelope_setDecay_def)
next
  case (AE_setRelease ms)
  have "AE_inv (AnalogEnvelope_calculateCoeffs (s\<lparr>aenv_releaseTime := ms\<rparr>))"
    using assms AE_setRelease by (intro AE_inv_calculateCoeffs) (simp_all add: AE_inv_def)
  then show ?thesis using AE_setRelease by (simp add: AnalogEnvelope_setRelease_def)
next
  case (AE_setAttack ms)
  have "AE_inv (AnalogEnvelope_calculateCoeffs (s\<lparr>aenv_attackTime := ms\<rparr>))"
    using assms by (intro AE_inv_calculateCoeffs) (simp_all add: AE_inv_def)
  then show ?thesis using AE_setAttack by (simp add: AnalogEnvelope_setAttack_def)
next
  case AE_noteOn
  then show ?thesis using assms by (simp add: AnalogEnvelope_noteOn_def AE_inv_def)
next
  case AE_noteOff
  then show ?thesis using assms by (simp add: AnalogEnvelope_noteOff_def AE_inv_def)
next
  case AE_process
  then show ?thesis using AE_inv_step[OF assms(1)] by (simp add: AnalogEnvelope_process_def)
qed

lemma AE_inv_run:
  "AE_inv s \<Longrightarrow> list_all AnalogEnvelope_call_ok cs \<Longrightarrow> AE_inv (AnalogEnvelope_run cs s)"
  by (induction cs arbitrary: s) (simp_all add: AE_inv_apply)

text \<open>One \<open>process\<close> call in Release or Idle.\<close>

lemma AnalogEnvelope_step_release:
  assumes "aenv_state s = RELEASE"
  shows "AnalogEnvelope_step s =
          (if aenv_currentLevel s * aenv_releaseCoeff s < 0.0001
           then s\<lparr>aenv_currentLevel := 0, aenv_state := IDLE\<rparr>
           else s\<lparr>aenv_currentLevel := aenv_currentLevel s * aenv_releaseCoeff s\<rparr>)"
  using assms by (simp add: AnalogEnvelope_step_def Let_def)

lemma AnalogEnvelope_step_idle:
  "aenv_state s = IDLE \<Longrightarrow> AnalogEnvelope_step s = s"
  by (simp add: AnalogEnvelope_step_def)

lemma AE_rel_step:
  assumes "AE_rel k s" and "0 < k" and "k < 1"
  shows "AE_rel k (AnalogEnvelope_step s) \<and> aenv_currentLevel (AnalogEnvelope_step s) \<le> aenv_currentLevel s"
proof (cases "aenv_state s = RELEASE")
  case True
  have "aenv_currentLevel s * k \<le> aenv_currentLevel s * 1"
    using assms by (intro mult_left_mono) (simp_all add: AE_rel_def)
  moreover have "0 \<le> aenv_currentLevel s * k" using assms by (simp add: AE_rel_def)
  ultimately show ?thesis
    using assms True by (simp add: AnalogEnvelope_step_release AE_rel_def)
next
  case False
  then have "aenv_state s = IDLE" using assms(1) by (auto simp: AE_rel_def)
  then show ?thesis using assms(1) by (simp add: AnalogEnvelope_step_idle)
qed

lemma AE_rel_process_n:
  assumes "AE_rel k s" and "0 < k" and "k < 1"
  shows "AE_rel k (AnalogEnvelope_process_n n s)"
  using AE_rel_step[OF _ assms(2,3)] assms(1)
  by (induction n) (simp_all add: AnalogEnvelope_process_def)

lemma AE_release_all_pow:
  assumes "AE_rel k s" and "0 < k" and "k < 1"
      and "\<forall>m. aenv_state (AnalogEnvelope_process_n m s) = RELEASE"
  shows "aenv_currentLevel (AnalogEnvelope_process_n n s) = aenv_currentLevel s * k ^ n
         \<and> 0.0001 \<le> aenv_currentLevel s * k ^ Suc n"
proof (induction n)
  case 0
  have st: "aenv_state s = RELEASE" using assms(4)[rule_format, of 0] by simp
  have "aenv_state (AnalogEnvelope_step s) = RELEASE"
    using assms(4)[rule_format, of 1] by (simp add: AnalogEnvelope_process_def)
  then have "\<not> aenv_currentLevel s * k < 0.0001"
    using assms(1) st by (auto simp: AnalogEnvelope_step_release AE_rel_def split: if_splits)
  then show ?case by simp
next
  case (Suc n)
  let ?x = "AnalogEnvelope_process_n n s"
  let ?y = "AnalogEnvelope_process_n (Suc n) s"
  have kx: "aenv_releaseCoeff ?x = k" and ky: "aenv_releaseCoeff ?y = k"
    using AE_rel_process_n[OF assms(1-3)] by (simp_all only: AE_rel_def)
  have stx: "aenv_state ?x = RELEASE" and sty: "aenv_state ?y = RELEASE"
    using assms(4) by blast+
  have y: "?y = AnalogEnvelope_step ?x" by (simp add: AnalogEnvelope_process_def)
  have ly: "aenv_currentLevel ?y = aenv_currentLevel ?x * k"
    using sty stx kx unfolding y
    by (auto simp: AnalogEnvelope_step_release split: if_splits)
  have "aenv_state (AnalogEnvelope_step ?y) = RELEASE"
    using assms(4)[rule_format, of "Suc (Suc n)"] by (simp add: AnalogEnvelope_process_def)
  then have "\<not> aenv_currentLevel ?y * k < 0.0001"
    using sty ky by (auto simp: AnalogEnvelope_step_release split: if_splits)
  then have "0.0001 \<le> aenv_currentLevel ?y * k" by simp
  moreover have "aenv_currentLevel ?y = aenv_currentLevel s * k ^ Suc n"
    using ly Suc.IH by simp
  ultimately show ?case by (simp add: mult_ac)
qed

lemma AE_release_reaches_idle:
  assumes "AE_rel k s" and "0 < k" and "k < 1"
  shows "\<exists>n. aenv_state (AnalogEnvelope_process_n n s) = IDLE
            \<and> aenv_currentLevel (AnalogEnvelope_process_n n s) = 0"
proof (rule ccontr)
  assume neg: "\<not> ?thesis"
  have all: "\<forall>m. aenv_state (AnalogEnvelope_process_n m s) = RELEASE"
  proof
    fix m
    show "aenv_state (AnalogEnvelope_process_n m s) = RELEASE"
      using AE_rel_process_n[OF assms, of m] neg by (auto simp: AE_rel_def)
  qed
  note pw = AE_release_all_pow[OF assms all]
  define L where "L = aenv_currentLevel s"
  have L: "0 \<le> L" using assms(1) by (simp add: AE_rel_def L_def)
  have big: "0.0001 \<le> L * k ^ Suc n" for n using pw[of n] by (simp add: L_def)
  have Lpos: "0 < L"
  proof (rule ccontr)
    assume "\<not> 0 < L"
    then have "L = 0" using L by simp
    then show False using big[of 0] by simp
  qed
  have "0 < 0.0001 / L" using Lpos by simp
  from real_arch_pow_inv[OF this assms(3)] obtain n where n: "k ^ n < 0.0001 / L" by blast
  have "k ^ Suc n \<le> k ^ n" using assms(2,3) by (simp add: mult_left_le_one_le)
  then have "k ^ Suc n < 0.0001 / L" using n by simp
  then have "k ^ Suc n * L < 0.0001" using Lpos by (simp only: pos_less_divide_eq)
  then have "L * k ^ Suc n < 0.0001" by (simp only: mult.commute)
  then show False using big[of n] by simp
qed

text \<open>
  Where the release does behave as a release: on an envelope reached from the default one
  by calls of the public interface with positive sample rates and release times and decay
  times other than zero, \<open>noteOff\<close> puts the stage at Release whatever it was (and
  so does \<open>noteOff\<close> on any object \<open>u\<close>) and keeps the level; each following \<open>process\<close>
  call returns the new level, which is never above the one before; a call made in Release
  multiplies the level by the release coefficient, and if the product is below 0.0001 the
  level becomes exactly 0 and the stage Idle; the stage is always Release, or Idle with
  level 0; and, in exact arithmetic, Idle is reached after finitely many calls.
\<close>

lemma AnalogEnvelope_noteOff_release:
  assumes "list_all AnalogEnvelope_call_ok cs"
  shows "let s = AnalogEnvelope_run cs AnalogEnvelope_init;
             r = AnalogEnvelope_noteOff s;
             k = aenv_releaseCoeff r
     in aenv_state (AnalogEnvelope_noteOff u) = RELEASE
      \<and> aenv_state r = RELEASE \<and> aenv_currentLevel r = aenv_currentLevel s
      \<and> (\<forall>n. fst (AnalogEnvelope_process (AnalogEnvelope_process_n n r))
                = aenv_currentLevel (AnalogEnvelope_process_n (Suc n) r))
      \<and> (\<forall>n. aenv_currentLevel (AnalogEnvelope_process_n (Suc n) r)
                \<le> aenv_currentLevel (AnalogEnvelope_process_n n r))
      \<and> (\<forall>n. aenv_state (AnalogEnvelope_process_n n r) = RELEASE \<longrightarrow>
              (if aenv_currentLevel (AnalogEnvelope_process_n n r) * k < 0.0001
               then aenv_currentLevel (AnalogEnvelope_process_n (Suc n) r) = 0
                    \<and> aenv_state (AnalogEnvelope_process_n (Suc n) r) = IDLE
               else aenv_currentLevel (AnalogEnvelope_process_n (Suc n) r)
                      = aenv_currentLevel (AnalogEnvelope_process_n n r) * k
                    \<and> aenv_state (AnalogEnvelope_process_n (Suc n) r) = RELEASE))
      \<and> (\<forall>n. aenv_state (AnalogEnvelope_process_n n r) = RELEASE
              \<or> aenv_state (AnalogEnvelope_process_n n r) = IDLE
                \<and> aenv_currentLevel (AnalogEnvelope_process_n n r) = 0)
      \<and> (\<exists>n. aenv_state (AnalogEnvelope_process_n n r) = IDLE
              \<and> aenv_currentLevel (AnalogEnvelope_process_n n r) = 0)"
proof -
  define s where "s = AnalogEnvelope_run cs AnalogEnvelope_init"
  define r where "r = AnalogEnvelope_noteOff s"
  define k where "k = aenv_releaseCoeff r"
  have inv: "AE_inv s"
    unfolding s_def using AE_inv_init assms by (rule AE_inv_run)
  have k: "0 < k" "k < 1"
    using inv by (simp_all add: k_def r_def AnalogEnvelope_noteOff_def AE_inv_def)
  have rel: "AE_rel k r"
    using inv by (simp add: AE_rel_def k_def r_def AnalogEnvelope_noteOff_def AE_inv_def)
  note reln = AE_rel_process_n[OF rel k]
  have 0: "aenv_state (AnalogEnvelope_noteOff u) = RELEASE"
    by (simp add: AnalogEnvelope_noteOff_def)
  have 1: "aenv_state r = RELEASE" and 2: "aenv_currentLevel r = aenv_currentLevel s"
    by (simp_all add: r_def AnalogEnvelope_noteOff_def)
  have 3: "\<forall>n. fst (AnalogEnvelope_process (AnalogEnvelope_process_n n r))
                = aenv_currentLevel (AnalogEnvelope_process_n (Suc n) r)"
    by (simp add: AnalogEnvelope_process_def)
  have 4: "\<forall>n. aenv_currentLevel (AnalogEnvelope_process_n (Suc n) r)
                \<le> aenv_currentLevel (AnalogEnvelope_process_n n r)"
  proof
    fix n
    show "aenv_currentLevel (AnalogEnvelope_process_n (Suc n) r)
                \<le> aenv_currentLevel (AnalogEnvelope_process_n n r)"
      using AE_rel_step[OF reln[of n] k] by (simp add: AnalogEnvelope_process_def)
  qed
  have 5: "\<forall>n. aenv_state (AnalogEnvelope_process_n n r) = RELEASE \<longrightarrow>
              (if aenv_currentLevel (AnalogEnvelope_process_n n r) * k < 0.0001
               then aenv_currentLevel (AnalogEnvelope_process_n (Suc n) r) = 0
                    \<and> aenv_state (AnalogEnvelope_process_n (Suc n) r) = IDLE
               else aenv_currentLevel (AnalogEnvelope_process_n (Suc n) r)
                      = aenv_currentLevel (AnalogEnvelope_process_n n r) * k
                    \<and> aenv_state (AnalogEnvelope_process_n (Suc n) r) = RELEASE)"
  proof (intro allI impI)
    fix n
    assume st: "aenv_state (AnalogEnvelope_process_n n r) = RELEASE"
    have kn: "aenv_releaseCoeff (AnalogEnvelope_process_n n r) = k"
      using reln[of n] by (simp only: AE_rel_def)
    show "if aenv_currentLevel (AnalogEnvelope_process_n n r) * k < 0.0001
               then aenv_currentLevel (AnalogEnvelope_process_n (Suc n) r) = 0
                    \<and> aenv_state (AnalogEnvelope_process_n (Suc n) r) = IDLE
               else aenv_currentLevel (AnalogEnvelope_process_n (Suc n) r)
                      = aenv_currentLevel (AnalogEnvelope_process_n n r) * k
                    \<and> aenv_state (AnalogEnvelope_process_n (Suc n) r) = RELEASE"
      using st kn by (simp add: AnalogEnvelope_process_def AnalogEnvelope_step_release)
  qed
  have 6: "\<forall>n. aenv_state (AnalogEnvelope_process_n n r) = RELEASE
              \<or> aenv_state (AnalogEnvelope_process_n n r) = IDLE
                \<and> aenv_currentLevel (AnalogEnvelope_process_n n r) = 0"
    using reln by (simp add: AE_rel_def)
  have 7: "\<exists>n. aenv_state (AnalogEnvelope_process_n n r) = IDLE
              \<and> aenv_currentLevel (AnalogEnvelope_process_n n r) = 0"
    using rel k by (rule AE_release_reaches_idle)
  show ?thesis
    unfolding Let_def s_def[symmetric] r_def[symmetric] k_def[symmetric]
    using 0 1 2 3 4 5 6 7 by blast
qed

lemma AnalogEnvelope_negative_release_state:
  "let r = AnalogEnvelope_noteOff (snd (AnalogEnvelope_process
              (AnalogEnvelope_noteOn (AnalogEnvelope_setRelease (- 10) AnalogEnvelope_init))))
   in aenv_state r = RELEASE \<and> aenv_currentLevel r = 10 / 1323
    \<and> aenv_releaseTime r = - 10 \<and> aenv_releaseCoeff r = exp (1 / 441)"
  by (simp add: AnalogEnvelope_noteOff_def AnalogEnvelope_process_def AnalogEnvelope_step_def
      AnalogEnvelope_noteOn_def AnalogEnvelope_setRelease_def AnalogEnvelope_calculateCoeffs_def
      AnalogEnvelope_init_def Let_def)

lemma AnalogEnvelope_release_grows:
  assumes "aenv_state r = RELEASE" and "aenv_releaseCoeff r = k" and "1 \<le> k"
    and "0.0001 \<le> aenv_currentLevel r"
  shows "aenv_state (AnalogEnvelope_process_n n r) = RELEASE
       \<and> aenv_currentLevel (AnalogEnvelope_process_n n r) = aenv_currentLevel r * k ^ n"
proof (induction n)
  case 0
  then show ?case using assms by simp
next
  case (Suc n)
  let ?x = "AnalogEnvelope_process_n n r"
  have kx: "aenv_releaseCoeff ?x = k"
    using assms(2) by (simp add: AnalogEnvelope_process_n_coeffs)
  have "1 \<le> k ^ Suc n" using assms(3) by (rule one_le_power)
  then have "aenv_currentLevel r * 1 \<le> aenv_currentLevel r * k ^ Suc n"
    using assms(4) by (intro mult_left_mono) simp_all
  then have "0.0001 \<le> aenv_currentLevel r * k ^ Suc n"
    using assms(4) by linarith
  moreover have "aenv_currentLevel ?x * k = aenv_currentLevel r * k ^ Suc n"
    using Suc by simp
  ultimately have "\<not> aenv_currentLevel ?x * k < 0.0001"
    by linarith
  then show ?case
    using Suc kx by (simp add: AnalogEnvelope_process_def AnalogEnvelope_step_release mult.assoc)
qed

text \<open>
  Claim C7, at an input where the code departs from it. \<open>setRelease(-10)\<close> on a default
  envelope is not floored: the release coefficient becomes \<open>exp (1 / 441)\<close>, greater
  than 1. After \<open>noteOn\<close>, one \<open>process\<close> call (level \<open>10 / 1323\<close>) and \<open>noteOff\<close>, the
  stage is Release, and every following \<open>process\<close> call returns a level above the one
  before it: after \<open>n\<close> calls the level is \<open>10 / 1323 * exp (1 / 441) ^ n\<close> and the stage
  is still Release, so the level never drops below the floor and Idle is never reached.
\<close>

theorem AnalogEnvelope_negative_release_rises:
  "let r = AnalogEnvelope_noteOff (snd (AnalogEnvelope_process
              (AnalogEnvelope_noteOn (AnalogEnvelope_setRelease (- 10) AnalogEnvelope_init))))
   in aenv_state r = RELEASE \<and> aenv_currentLevel r = 10 / 1323
    \<and> aenv_releaseTime r = - 10 \<and> aenv_releaseCoeff r = exp (1 / 441)
    \<and> (\<forall>n. aenv_state (AnalogEnvelope_process_n n r) = RELEASE
           \<and> aenv_currentLevel (AnalogEnvelope_process_n n r) = 10 / 1323 * exp (1 / 441) ^ n
           \<and> aenv_currentLevel (AnalogEnvelope_process_n n r)
               < fst (AnalogEnvelope_process (AnalogEnvelope_process_n n r)))"
proof -
  define r where "r = AnalogEnvelope_noteOff (snd (AnalogEnvelope_process
              (AnalogEnvelope_noteOn (AnalogEnvelope_setRelease (- 10) AnalogEnvelope_init))))"
  have st: "aenv_state r = RELEASE" and l: "aenv_currentLevel r = 10 / 1323"
    and t: "aenv_releaseTime r = - 10" and k: "aenv_releaseCoeff r = exp (1 / 441)"
    using AnalogEnvelope_negative_release_state unfolding Let_def r_def[symmetric] by simp_all
  have k1: "(1::real) < exp (1 / 441)" by simp
  have g: "aenv_state (AnalogEnvelope_process_n n r) = RELEASE
       \<and> aenv_currentLevel (AnalogEnvelope_process_n n r) = 10 / 1323 * exp (1 / 441) ^ n" for n
    using AnalogEnvelope_release_grows[OF st k, of n] k1 l by simp
  have up: "aenv_currentLevel (AnalogEnvelope_process_n n r)
               < fst (AnalogEnvelope_process (AnalogEnvelope_process_n n r))" for n
  proof -
    have "fst (AnalogEnvelope_process (AnalogEnvelope_process_n n r))
            = aenv_currentLevel (AnalogEnvelope_process_n (Suc n) r)"
      by (simp add: AnalogEnvelope_process_def)
    also have "\<dots> = 10 / 1323 * exp (1 / 441) ^ n * exp (1 / 441)"
      using g[of "Suc n"] by simp
    finally have e: "fst (AnalogEnvelope_process (AnalogEnvelope_process_n n r))
            = 10 / 1323 * exp (1 / 441) ^ n * exp (1 / 441)" .
    have "0 < 10 / 1323 * exp (1 / 441 :: real) ^ n" by simp
    then have "10 / 1323 * exp (1 / 441 :: real) ^ n * 1 < 10 / 1323 * exp (1 / 441) ^ n * exp (1 / 441)"
      using k1 by (intro mult_strict_left_mono) simp_all
    then show ?thesis unfolding e using g[of n] by simp
  qed
  show ?thesis
    unfolding Let_def r_def[symmetric]
    using st l t k g up by blast
qed

section \<open>Oscillator: the phases stay in the unit interval\<close>

lemma wrap_unit:
  assumes "0 \<le> x"
  shows "0 \<le> (if x \<ge> 1 then x - floorf x else x) \<and> (if x \<ge> 1 then x - floorf x else x) < 1"
proof -
  have "0 \<le> x - of_int \<lfloor>x\<rfloor>" "x - of_int \<lfloor>x\<rfloor> < 1" by linarith+
  then show ?thesis using assms by (simp add: floorf_def)
qed

lemma O_inv_init: "O_inv Oscillator_init"
  by (simp add: O_inv_def Oscillator_init_def)

lemma O_inv_tick:
  assumes "O_inv s"
  shows "O_inv (Oscillator_tick s)"
proof (cases "osc_glideCounter s > 0")
  case True
  then have "0 < osc_frequency s * osc_glideStep s"
    using assms by (simp add: O_inv_def)
  then show ?thesis
    using assms True by (simp add: O_inv_def Oscillator_tick_def Let_def)
next
  case False
  then show ?thesis using assms by (simp add: Oscillator_tick_def)
qed

lemma O_inv_advance:
  assumes "O_inv s"
  shows "O_inv (Oscillator_advance s)"
proof -
  have a: "0 \<le> osc_subPhase s + osc_subPhaseIncrement s" "0 \<le> osc_phase s + osc_phaseIncrement s"
    using assms by (simp_all add: O_inv_def)
  show ?thesis
    using assms wrap_unit[OF a(1)] wrap_unit[OF a(2)]
    by (simp add: O_inv_def Oscillator_advance_def Let_def)
qed

lemma O_inv_glideTo:
  assumes "O_inv s" and "0 < f"
  shows "O_inv (Oscillator_glideTo f ms s)"
proof -
  have "f / osc_frequency s \<noteq> 0" using assms by (simp add: O_inv_def)
  then have "0 < (f / osc_frequency s) powr a" for a by simp
  then show ?thesis
    using assms by (simp add: O_inv_def Oscillator_glideTo_def Let_def)
qed

lemma O_inv_apply:
  assumes "O_inv s" and "Oscillator_call_ok c"
  shows "O_inv (Oscillator_apply c s)"
proof (cases c)
  case (O_setSampleRate r)
  then show ?thesis using assms by (simp add: O_inv_def Oscillator_setSampleRate_def)
next
  case (O_setFrequency f)
  then show ?thesis using assms by (simp add: O_inv_def Oscillator_setFrequency_def)
next
  case (O_setWaveform w)
  then show ?thesis using assms by (simp add: O_inv_def Oscillator_setWaveform_def)
next
  case (O_setBlend b)
  then show ?thesis using assms by (simp add: O_inv_def Oscillator_setBlend_def)
next
  case (O_setSubBlend b)
  then show ?thesis using assms by (simp add: O_inv_def Oscillator_setSubBlend_def)
next
  case (O_glideTo f ms)
  then show ?thesis using assms by (simp add: O_inv_glideTo)
next
  case O_tick
  then show ?thesis using assms by (simp add: O_inv_tick)
next
  case O_process
  then show ?thesis using assms by (simp add: Oscillator_process_def Let_def O_inv_tick O_inv_advance)
next
  case (O_setMode jc)
  then show ?thesis using assms by (simp add: O_inv_def Oscillator_setMode_def)
next
  case O_resetPhase
  then show ?thesis using assms by (simp add: O_inv_def Oscillator_resetPhase_def)
qed

lemma O_inv_run:
  "O_inv s \<Longrightarrow> list_all Oscillator_call_ok cs \<Longrightarrow> O_inv (Oscillator_run cs s)"
  by (induction cs arbitrary: s) (simp_all add: O_inv_apply)

text \<open>
  Claim C3. On an oscillator reached from the default one by calls of the public
  interface whose sample rates, frequencies and glide targets are positive, \<open>phase\<close> and
  \<open>subPhase\<close> lie in the interval from 0 (included) to 1 (excluded), and they still do
  after any number \<open>n\<close> of further \<open>process\<close> calls.
\<close>

theorem Oscillator_phase_in_unit:
  assumes "list_all Oscillator_call_ok cs"
  shows "let s = Oscillator_run cs Oscillator_init;
             t = Oscillator_run (replicate n O_process) s
         in (0 \<le> osc_phase s \<and> osc_phase s < 1 \<and> 0 \<le> osc_subPhase s \<and> osc_subPhase s < 1)
          \<and> (0 \<le> osc_phase t \<and> osc_phase t < 1 \<and> 0 \<le> osc_subPhase t \<and> osc_subPhase t < 1)"
proof -
  have 1: "O_inv (Oscillator_run cs Oscillator_init)"
    using O_inv_init assms by (rule O_inv_run)
  have "list_all Oscillator_call_ok (replicate n O_process)"
    by (simp add: list_all_iff)
  with 1 have 2: "O_inv (Oscillator_run (replicate n O_process) (Oscillator_run cs Oscillator_init))"
    by (rule O_inv_run)
  show ?thesis
    using 1 2 unfolding Let_def O_inv_def by blast
qed

theorem Oscillator_phase_in_unit_witness:
  "list_all Oscillator_call_ok [O_setSampleRate 48000, O_setFrequency 30000, O_process, O_process]
   \<and> osc_phase (Oscillator_run [O_setSampleRate 48000, O_setFrequency 30000, O_process, O_process]
        Oscillator_init) < 1"
proof -
  have h: "list_all Oscillator_call_ok
            [O_setSampleRate 48000, O_setFrequency 30000, O_process, O_process]"
    by simp
  show ?thesis
    using h Oscillator_phase_in_unit[OF h, of 0] unfolding Let_def by blast
qed

section \<open>Oscillator: the range of the sample\<close>

lemma fmod_unit:
  assumes "0 \<le> x" and "x < 1"
  shows "fmod x 1 = x"
proof -
  have "\<lfloor>x\<rfloor> = 0" using assms by (intro floor_unique) simp_all
  then show ?thesis using assms by (simp add: fmod_def truncf_def)
qed

lemma fmod_unit_shift:
  assumes "1 \<le> x" and "x < 2"
  shows "fmod x 1 = x - 1"
proof -
  have "\<lfloor>x\<rfloor> = 1" using assms by (intro floor_unique) simp_all
  then show ?thesis using assms by (simp add: fmod_def truncf_def)
qed

text \<open>The three branches of \<open>polyBLEP\<close>, the two parabolas written as squares.\<close>

lemma polyBLEP_low:
  "t < osc_phaseIncrement s \<Longrightarrow>
   Oscillator_polyBLEP s t = - (1 - t / osc_phaseIncrement s)\<^sup>2"
  by (simp add: Oscillator_polyBLEP_def Let_def power2_eq_square algebra_simps)

lemma polyBLEP_high:
  "\<not> t < osc_phaseIncrement s \<Longrightarrow> t > 1 - osc_phaseIncrement s \<Longrightarrow>
   Oscillator_polyBLEP s t = ((t - 1) / osc_phaseIncrement s + 1)\<^sup>2"
  by (simp add: Oscillator_polyBLEP_def Let_def power2_eq_square algebra_simps)

lemma polyBLEP_mid:
  "\<not> t < osc_phaseIncrement s \<Longrightarrow> \<not> t > 1 - osc_phaseIncrement s \<Longrightarrow>
   Oscillator_polyBLEP s t = 0"
  by (simp add: Oscillator_polyBLEP_def)

lemma low_arg:
  fixes t i :: real
  assumes "0 < i" and "0 \<le> t" and "t < i"
  shows "0 < 1 - t / i" and "1 - t / i \<le> 1"
  using assms by simp_all

lemma high_arg:
  fixes t i :: real
  assumes "0 < i" and "t < 1" and "t > 1 - i"
  shows "0 < (t - 1) / i + 1" and "(t - 1) / i + 1 < 1"
proof -
  have "- i < t - 1" using assms by simp
  then have "- 1 < (t - 1) / i" using assms(1) by (simp add: pos_less_divide_eq)
  then show "0 < (t - 1) / i + 1" by simp
  have "(t - 1) / i < 0" using assms by (simp add: divide_neg_pos)
  then show "(t - 1) / i + 1 < 1" by simp
qed

lemma sq_le_one:
  fixes x :: real
  assumes "0 \<le> x" and "x \<le> 1"
  shows "x\<^sup>2 \<le> 1"
  using assms by (simp add: power_le_one)

lemma polyBLEP_bounds:
  assumes "0 < osc_phaseIncrement s" and "0 \<le> t" and "t < 1"
  shows "- 1 \<le> Oscillator_polyBLEP s t" and "Oscillator_polyBLEP s t \<le> 1"
proof -
  let ?i = "osc_phaseIncrement s"
  consider (low) "t < ?i" | (high) "\<not> t < ?i" "t > 1 - ?i" | (mid) "\<not> t < ?i" "\<not> t > 1 - ?i"
    by blast
  then have "- 1 \<le> Oscillator_polyBLEP s t \<and> Oscillator_polyBLEP s t \<le> 1"
  proof cases
    case low
    have "(1 - t / ?i)\<^sup>2 \<le> 1"
      using low_arg[OF assms(1,2) low] by (intro sq_le_one) simp_all
    moreover have "0 \<le> (1 - t / ?i)\<^sup>2" by simp
    ultimately show ?thesis unfolding polyBLEP_low[OF low] by linarith
  next
    case high
    have "((t - 1) / ?i + 1)\<^sup>2 \<le> 1"
      using high_arg[OF assms(1,3) high(2)] by (intro sq_le_one) simp_all
    moreover have "0 \<le> ((t - 1) / ?i + 1)\<^sup>2" by simp
    ultimately show ?thesis unfolding polyBLEP_high[OF high] by linarith
  next
    case mid
    then show ?thesis by (simp add: polyBLEP_mid)
  qed
  then show "- 1 \<le> Oscillator_polyBLEP s t" and "Oscillator_polyBLEP s t \<le> 1" by simp_all
qed

lemma polyBLEP_mono:
  assumes i: "0 < osc_phaseIncrement s" and a: "0 \<le> a" and ab: "a \<le> b" and b: "b < 1"
  shows "Oscillator_polyBLEP s a \<le> Oscillator_polyBLEP s b"
proof -
  let ?i = "osc_phaseIncrement s"
  consider (low) "b < ?i" | (high) "\<not> b < ?i" "b > 1 - ?i" | (mid) "\<not> b < ?i" "\<not> b > 1 - ?i"
    by blast
  then show ?thesis
  proof cases
    case low
    then have al: "a < ?i" using ab by simp
    have "0 \<le> 1 - b / ?i" using low_arg(1)[OF i _ low] a ab by simp
    moreover have "1 - b / ?i \<le> 1 - a / ?i"
      using ab i by (simp add: divide_right_mono)
    ultimately have "(1 - b / ?i)\<^sup>2 \<le> (1 - a / ?i)\<^sup>2"
      by (intro power_mono)
    then show ?thesis unfolding polyBLEP_low[OF low] polyBLEP_low[OF al] by simp
  next
    case high
    have bpos: "0 \<le> Oscillator_polyBLEP s b"
      unfolding polyBLEP_high[OF high] by simp
    consider (alow) "a < ?i" | (ahigh) "\<not> a < ?i" "a > 1 - ?i" | (amid) "\<not> a < ?i" "\<not> a > 1 - ?i"
      by blast
    then show ?thesis
    proof cases
      case alow
      have "Oscillator_polyBLEP s a \<le> 0" unfolding polyBLEP_low[OF alow] by simp
      then show ?thesis using bpos by linarith
    next
      case ahigh
      have "a < 1" using ab b by simp
      then have "0 \<le> (a - 1) / ?i + 1" using high_arg(1)[OF i _ ahigh(2)] by simp
      moreover have "(a - 1) / ?i + 1 \<le> (b - 1) / ?i + 1"
        using ab i by (simp add: divide_right_mono)
      ultimately have "((a - 1) / ?i + 1)\<^sup>2 \<le> ((b - 1) / ?i + 1)\<^sup>2"
        by (intro power_mono)
      then show ?thesis unfolding polyBLEP_high[OF high] polyBLEP_high[OF ahigh] .
    next
      case amid
      then show ?thesis using bpos by (simp add: polyBLEP_mid)
    qed
  next
    case mid
    show ?thesis
    proof (cases "a < ?i")
      case True
      have "Oscillator_polyBLEP s a \<le> 0" unfolding polyBLEP_low[OF True] by simp
      then show ?thesis by (simp add: polyBLEP_mid[OF mid])
    next
      case False
      moreover have "\<not> a > 1 - ?i" using mid(2) ab by simp
      ultimately show ?thesis by (simp add: polyBLEP_mid[OF mid] polyBLEP_mid)
    qed
  qed
qed

lemma Oscillator_square_range:
  assumes i: "0 < osc_phaseIncrement s"
    and p: "0 \<le> osc_phase s" "osc_phase s < 1"
    and w: "0 < osc_pulseWidth s" "osc_pulseWidth s < 1"
  shows "- 1 \<le> Oscillator_square s \<and> Oscillator_square s \<le> 1"
proof (cases "osc_phase s < osc_pulseWidth s")
  case True
  let ?q = "osc_phase s + 1 - osc_pulseWidth s"
  have q: "0 \<le> ?q" "?q < 1" "osc_phase s \<le> ?q" using True p w by simp_all
  have f: "fmod ?q 1 = ?q" using q by (intro fmod_unit) simp_all
  have m: "Oscillator_polyBLEP s (osc_phase s) \<le> Oscillator_polyBLEP s ?q"
    using i p(1) q(3) q(2) by (rule polyBLEP_mono)
  have "- 1 \<le> Oscillator_polyBLEP s (osc_phase s)" "Oscillator_polyBLEP s ?q \<le> 1"
    using polyBLEP_bounds[OF i p] polyBLEP_bounds[OF i q(1,2)] by simp_all
  with m show ?thesis using True by (simp add: Oscillator_square_def f)
next
  case False
  let ?x = "osc_phase s + 1 - osc_pulseWidth s"
  let ?q = "osc_phase s - osc_pulseWidth s"
  have x: "1 \<le> ?x" "?x < 2" using False p w by simp_all
  have q: "0 \<le> ?q" "?q < 1" "?q \<le> osc_phase s" using False p w by simp_all
  have f: "fmod ?x 1 = ?q" using fmod_unit_shift[OF x] by simp
  have m: "Oscillator_polyBLEP s ?q \<le> Oscillator_polyBLEP s (osc_phase s)"
    using i q(1) q(3) p(2) by (rule polyBLEP_mono)
  have "Oscillator_polyBLEP s (osc_phase s) \<le> 1" "- 1 \<le> Oscillator_polyBLEP s ?q"
    using polyBLEP_bounds[OF i p] polyBLEP_bounds[OF i q(1,2)] by simp_all
  with m show ?thesis using False by (simp add: Oscillator_square_def f)
qed

lemma saw_core:
  assumes i: "0 < osc_phaseIncrement s" "osc_phaseIncrement s \<le> 1"
    and h: "0 \<le> sh" "sh < 1"
  shows "- 1 \<le> 2 * sh - 1 - Oscillator_polyBLEP s sh \<and> 2 * sh - 1 - Oscillator_polyBLEP s sh \<le> 1"
proof -
  let ?i = "osc_phaseIncrement s"
  consider (low) "sh < ?i" | (high) "\<not> sh < ?i" "sh > 1 - ?i" | (mid) "\<not> sh < ?i" "\<not> sh > 1 - ?i"
    by blast
  then show ?thesis
  proof cases
    case low
    define u where "u = sh / ?i"
    have u: "0 \<le> u" "u \<le> 1" using i(1) h(1) low by (simp_all add: u_def)
    have "u * ?i \<le> u * 1" using u(1) i(2) by (intro mult_left_mono) simp_all
    moreover have "u * ?i = sh" using i(1) by (simp add: u_def)
    ultimately have su: "sh \<le> u" by simp
    have u2: "u\<^sup>2 \<le> 1" using u by (rule sq_le_one)
    have e: "(1 - u)\<^sup>2 = 1 - 2 * u + u\<^sup>2" by (simp add: power2_eq_square algebra_simps)
    have p: "0 \<le> (1 - u)\<^sup>2" by simp
    have "Oscillator_polyBLEP s sh = - (1 - u)\<^sup>2"
      unfolding u_def by (rule polyBLEP_low[OF low])
    then show ?thesis using su u2 e p h(1) by linarith
  next
    case high
    define w where "w = (sh - 1) / ?i + 1"
    have w: "0 < w" "w < 1" using high_arg[OF i(1) h(2) high(2)] by (simp_all add: w_def)
    have "(sh - 1) * 1 \<le> (sh - 1) * ?i"
      using h(2) i(2) by (intro mult_left_mono_neg) simp_all
    then have "(sh - 1) / ?i \<le> sh - 1" using i(1) by (simp add: pos_divide_le_eq)
    then have ws: "w \<le> sh" by (simp add: w_def)
    have "w * w \<le> w * 1" using w by (intro mult_left_mono) simp_all
    then have w2: "w\<^sup>2 \<le> w" by (simp add: power2_eq_square)
    have p: "0 \<le> w\<^sup>2" by simp
    have "Oscillator_polyBLEP s sh = w\<^sup>2"
      unfolding w_def by (rule polyBLEP_high[OF high])
    then show ?thesis using ws w2 p h by linarith
  next
    case mid
    then show ?thesis using h by (simp add: polyBLEP_mid)
  qed
qed

lemma Oscillator_saw_range:
  assumes i: "0 < osc_phaseIncrement s" "osc_phaseIncrement s \<le> 1"
    and p: "0 \<le> osc_phase s" "osc_phase s < 1"
  shows "- 1 \<le> Oscillator_saw s \<and> Oscillator_saw s \<le> 1"
proof -
  define sh where "sh = fmod (osc_phase s + 0.5) 1"
  have "0 \<le> sh \<and> sh < 1"
  proof (cases "osc_phase s < 0.5")
    case True
    then have "fmod (osc_phase s + 0.5) 1 = osc_phase s + 0.5"
      using p by (intro fmod_unit) simp_all
    then show ?thesis using True p by (simp add: sh_def)
  next
    case False
    then have "fmod (osc_phase s + 0.5) 1 = osc_phase s + 0.5 - 1"
      using p by (intro fmod_unit_shift) simp_all
    then show ?thesis using False p by (simp add: sh_def)
  qed
  then have "- 1 \<le> 2 * sh - 1 - Oscillator_polyBLEP s sh \<and> 2 * sh - 1 - Oscillator_polyBLEP s sh \<le> 1"
    using saw_core[OF i] by blast
  then show ?thesis by (simp add: Oscillator_saw_def Let_def sh_def)
qed

lemma convex_unit:
  fixes b x y :: real
  assumes "0 \<le> b" "b \<le> 1" "- 1 \<le> x" "x \<le> 1" "- 1 \<le> y" "y \<le> 1"
  shows "- 1 \<le> (1 - b) * x + b * y \<and> (1 - b) * x + b * y \<le> 1"
proof -
  define p where "p = (1 - b) * x"
  define q where "q = b * y"
  have "(1 - b) * x \<le> (1 - b) * 1" "(1 - b) * (- 1) \<le> (1 - b) * x"
    "b * y \<le> b * 1" "b * (- 1) \<le> b * y"
    using assms by (intro mult_left_mono; simp)+
  then have "p \<le> 1 - b" "- (1 - b) \<le> p" "q \<le> b" "- b \<le> q"
    by (simp_all add: p_def q_def)
  then have "- 1 \<le> p + q \<and> p + q \<le> 1" by linarith
  then show ?thesis by (simp add: p_def q_def)
qed

lemma Oscillator_value_range:
  assumes "O_inv s" and "osc_phaseIncrement s \<le> 1"
  shows "- 0.707 \<le> Oscillator_value s \<and> Oscillator_value s \<le> 0.707"
proof -
  have i: "0 < osc_phaseIncrement s" and p: "0 \<le> osc_phase s" "osc_phase s < 1"
    and w: "0 < osc_pulseWidth s" "osc_pulseWidth s < 1"
    and b: "0 \<le> osc_blend s" "osc_blend s \<le> 1" and sb: "0 \<le> osc_subBlend s" "osc_subBlend s \<le> 1"
    using assms(1) by (simp_all add: O_inv_def)
  define v0 where "v0 = (1 - osc_blend s) * Oscillator_square s + osc_blend s * Oscillator_saw s"
  define subVal :: real where "subVal = (if osc_subPhase s < 0.5 then 1 else - 1)"
  define v1 where "v1 = (1 - osc_subBlend s) * v0 + osc_subBlend s * subVal"
  have sq: "- 1 \<le> Oscillator_square s" "Oscillator_square s \<le> 1"
    using Oscillator_square_range[OF i p w] by simp_all
  have sw: "- 1 \<le> Oscillator_saw s" "Oscillator_saw s \<le> 1"
    using Oscillator_saw_range[OF i assms(2) p] by simp_all
  have v0: "- 1 \<le> v0" "v0 \<le> 1"
    using convex_unit[OF b sq sw] by (simp_all add: v0_def)
  have sv: "- 1 \<le> subVal" "subVal \<le> 1" by (simp_all add: subVal_def)
  have v1: "- 1 \<le> v1" "v1 \<le> 1"
    using convex_unit[OF sb v0 sv] by (simp_all add: v1_def)
  have "Oscillator_value s = v1 * 0.707"
    by (simp add: Oscillator_value_def Let_def v1_def v0_def subVal_def)
  then show ?thesis using v1 by simp
qed

text \<open>
  Claim C9, at an input where the code departs from it. With the default sample rate
  44100, \<open>setFrequency(153909)\<close> (3.49 times the sample rate) and \<open>setBlend(1)\<close>, the
  second \<open>process\<close> call returns a sample greater than 1: the phase is 0.49, the shifted
  phase 0.99 is below the phase increment 3.49, and the first branch of \<open>polyBLEP\<close>
  subtracts about \<open>-0.513\<close> from the saw value 0.98, which the factor 0.707 does not
  bring back under 1. The header documents the return value as a sample in the range
  from \<open>-1\<close> to 1.
\<close>

theorem Oscillator_process_above_one:
  "list_all Oscillator_call_ok [O_setFrequency 153909, O_setBlend 1, O_process]
   \<and> 1 < fst (Oscillator_process
             (Oscillator_run [O_setFrequency 153909, O_setBlend 1, O_process] Oscillator_init))"
  by (simp add: Oscillator_process_def Oscillator_tick_def Oscillator_advance_def
      Oscillator_value_def Oscillator_saw_def Oscillator_square_def Oscillator_polyBLEP_def
      Oscillator_setFrequency_def Oscillator_setBlend_def Oscillator_init_def
      fmod_def truncf_def floorf_def Let_def)

text \<open>
  Where the documented range does hold: on an oscillator reached from the default one by
  calls of the public interface whose sample rates, frequencies and glide targets are
  positive, a \<open>process\<close> call for which the stored phase increment, after the glide
  step of this call, is at most 1 returns a sample between \<open>-0.707\<close> and \<open>0.707\<close>.
\<close>

lemma Oscillator_process_range:
  assumes "list_all Oscillator_call_ok cs"
    and "osc_phaseIncrement (Oscillator_tick (Oscillator_run cs Oscillator_init)) \<le> 1"
  shows "let v = fst (Oscillator_process (Oscillator_run cs Oscillator_init))
         in - 0.707 \<le> v \<and> v \<le> 0.707 \<and> - 1 \<le> v \<and> v \<le> 1"
proof -
  have "O_inv (Oscillator_run cs Oscillator_init)"
    using O_inv_init assms(1) by (rule O_inv_run)
  then have "O_inv (Oscillator_tick (Oscillator_run cs Oscillator_init))"
    by (rule O_inv_tick)
  from Oscillator_value_range[OF this assms(2)] show ?thesis
    by (simp add: Oscillator_process_def Let_def)
qed

section \<open>Oscillator: glide\<close>

lemma Oscillator_tick_n_glide:
  "osc_glideStep (Oscillator_tick_n n s) = osc_glideStep s
   \<and> osc_glideCounter (Oscillator_tick_n n s)
        = max (min (osc_glideCounter s) 0) (osc_glideCounter s - int n)
   \<and> osc_frequency (Oscillator_tick_n n s)
        = osc_frequency s * osc_glideStep s ^ (min n (nat (osc_glideCounter s)))"
proof (induction n)
  case 0
  then show ?case by simp
next
  case (Suc n)
  let ?x = "Oscillator_tick_n n s"
  show ?case
  proof (cases "osc_glideCounter ?x > 0")
    case True
    then have lt: "int n < osc_glideCounter s" using Suc by (simp add: max_def min_def split: if_splits)
    then have m: "min n (nat (osc_glideCounter s)) = n"
      "min (Suc n) (nat (osc_glideCounter s)) = Suc n" by simp_all
    have c: "osc_glideCounter ?x = osc_glideCounter s - int n"
      using Suc lt by (simp add: max_def min_def)
    show ?thesis
      using True Suc lt c unfolding m
      by (simp add: Oscillator_tick_def Let_def max_def min_def)
  next
    case False
    then have ge: "osc_glideCounter s \<le> int n \<or> osc_glideCounter s \<le> 0"
      using Suc by (simp add: max_def min_def split: if_splits)
    then have m: "min (Suc n) (nat (osc_glideCounter s)) = min n (nat (osc_glideCounter s))"
      by auto
    have t: "Oscillator_tick ?x = ?x" using False by (simp add: Oscillator_tick_def)
    have c: "max (min (osc_glideCounter s) 0) (osc_glideCounter s - int (Suc n))
           = max (min (osc_glideCounter s) 0) (osc_glideCounter s - int n)"
      using ge by (auto simp: max_def min_def)
    show ?thesis using Suc unfolding m c by (simp add: t)
  qed
qed

lemma Oscillator_glideTo_fields:
  "osc_frequency (Oscillator_glideTo f ms s) = osc_frequency s"
  "osc_targetFreq (Oscillator_glideTo f ms s) = f"
  "osc_glideSamples (Oscillator_glideTo f ms s)
     = (if ms / 1000 * osc_sampleRate s < 1 then 1 else ms / 1000 * osc_sampleRate s)"
  "osc_glideStep (Oscillator_glideTo f ms s)
     = (f / osc_frequency s) powr (1 / osc_glideSamples (Oscillator_glideTo f ms s))"
  "osc_glideCounter (Oscillator_glideTo f ms s) = truncf (osc_glideSamples (Oscillator_glideTo f ms s))"
  by (simp_all add: Oscillator_glideTo_def Let_def)

lemma powr_pow_real:
  fixes x :: real
  assumes "0 < x"
  shows "(x powr a) ^ n = x powr (a * real n)"
proof -
  have "(x powr a) ^ n = (x powr a) powr real n"
    using assms by (simp add: powr_realpow)
  then show ?thesis by (simp add: powr_powr)
qed

lemma two_powr_two_thirds: "(2::real) powr (2 / 3) < 8 / 5"
proof (rule ccontr)
  assume "\<not> (2::real) powr (2 / 3) < 8 / 5"
  then have "(8 / 5 :: real) \<le> 2 powr (2 / 3)" by simp
  then have "(8 / 5 :: real) ^ 3 \<le> (2 powr (2 / 3)) ^ 3"
    by (intro power_mono) simp_all
  also have "(2 powr (2 / 3 :: real)) ^ 3 = 2 powr (2 / 3 * real (3 :: nat))"
    by (rule powr_pow_real) simp
  also have "\<dots> = 4" by simp
  finally have "(8 / 5 :: real) ^ 3 \<le> 4" .
  then show False by (simp add: power_divide)
qed

text \<open>
  Claim C4, at an input where the code departs from it. At 48000 Hz, from the default
  440 Hz, \<open>glideTo(880, 0.03125)\<close> asks for a glide of one and a half samples: the step
  is sized for 1.5 steps (\<open>2\<close> to the power \<open>1 / 1.5\<close>) but the counter is
  \<open>(int)1.5 = 1\<close>. After the one tick the counter is 0 and the glide is over, the
  frequency is \<open>440 * 2 powr (2 / 3)\<close>, below 704 Hz and not the target 880 Hz, and no
  later tick changes it: nothing assigns \<open>targetFreq\<close> to \<open>frequency\<close>.
\<close>

theorem Oscillator_glide_stops_short:
  "let g = Oscillator_glideTo 880 0.03125 (Oscillator_setSampleRate 48000 Oscillator_init)
   in osc_targetFreq g = 880 \<and> osc_frequency g = 440
    \<and> osc_glideSamples g = 1.5 \<and> osc_glideStep g = 2 powr (1 / 1.5) \<and> osc_glideCounter g = 1
    \<and> osc_glideCounter (Oscillator_tick g) = 0
    \<and> osc_frequency (Oscillator_tick g) = 440 * 2 powr (2 / 3)
    \<and> osc_frequency (Oscillator_tick g) < 704
    \<and> Oscillator_tick (Oscillator_tick g) = Oscillator_tick g"
proof -
  define g where "g = Oscillator_glideTo 880 0.03125 (Oscillator_setSampleRate 48000 Oscillator_init)"
  have N: "osc_glideSamples g = 1.5"
    by (simp add: g_def Oscillator_glideTo_fields Oscillator_setSampleRate_def Oscillator_init_def)
  have t: "osc_targetFreq g = 880" and f: "osc_frequency g = 440"
    by (simp_all add: g_def Oscillator_glideTo_fields Oscillator_setSampleRate_def Oscillator_init_def)
  have fl: "\<lfloor>1.5 :: real\<rfloor> = 1" by (rule floor_unique) simp_all
  have "osc_glideCounter g = truncf (osc_glideSamples g)"
    unfolding g_def by (rule Oscillator_glideTo_fields(5))
  then have c: "osc_glideCounter g = 1"
    unfolding N by (simp add: truncf_def fl)
  have "osc_glideStep g = (880 / osc_frequency (Oscillator_setSampleRate 48000 Oscillator_init))
          powr (1 / osc_glideSamples g)"
    unfolding g_def by (rule Oscillator_glideTo_fields(4))
  then have q: "osc_glideStep g = 2 powr (1 / 1.5)"
    unfolding N by (simp add: Oscillator_setSampleRate_def Oscillator_init_def)
  have e: "(1 / 1.5 :: real) = 2 / 3" by simp
  have c1: "osc_glideCounter (Oscillator_tick g) = 0"
    using c by (simp add: Oscillator_tick_def Let_def)
  have f1: "osc_frequency (Oscillator_tick g) = 440 * 2 powr (2 / 3)"
    using c f q by (simp add: Oscillator_tick_def Let_def e)
  have f2: "osc_frequency (Oscillator_tick g) < 704"
    unfolding f1 using two_powr_two_thirds by simp
  have st: "Oscillator_tick (Oscillator_tick g) = Oscillator_tick g"
    using c1 by (simp add: Oscillator_tick_def[of "Oscillator_tick g"])
  show ?thesis
    unfolding Let_def g_def[symmetric]
    using t f N q c c1 f1 f2 st by blast
qed

end
